theory Spec2Isabelle
  imports Main "HOL-Library.Word"
begin

unbundle bit_operations_syntax

text \<open>
  A shallow embedding of the key codec and catalog of \<open>state_history_kv.hpp\<close> and of
  the query engine of \<open>wasm_ql_rocksdb_plugin.cpp\<close> (\<open>append_fields\<close> and
  \<open>query_database\<close>), followed by the properties of the key encoding, of the
  index bounds, of field extraction, of \<open>prepare\<close>, of the join and of the result
  cap. What the two files take from elsewhere (the types library, the store) is
  modelled from the specification where it says enough, and is a parameter
  otherwise; each such place says so.
\<close>

section \<open>Bytes and the store's key order\<close>

text \<open>
  A \<open>std::vector<char>\<close> is a list of bytes. The store compares keys as unsigned
  bytes, so a byte is an \<open>8 word\<close>, whose order is the unsigned one.
\<close>

type_synonym byte = "8 word"
type_synonym bytes = "byte list"

datatype cmp_result = LT | EQ | GT

text \<open>
  Modelled from the spec: the byte-lexicographic comparison of the ordered store
  (the store itself is not part of \<open>state_history_kv.hpp\<close>). The first differing
  byte decides; a proper prefix sorts first.
\<close>

fun bytewise_cmp :: "bytes \<Rightarrow> bytes \<Rightarrow> cmp_result" where
  "bytewise_cmp [] [] = EQ"
| "bytewise_cmp [] (y # ys) = LT"
| "bytewise_cmp (x # xs) [] = GT"
| "bytewise_cmp (x # xs) (y # ys) =
     (if x < y then LT else if y < x then GT else bytewise_cmp xs ys)"

text \<open>The three-way comparison of two values in their natural order.\<close>

definition cmp :: "'a::linorder \<Rightarrow> 'a \<Rightarrow> cmp_result" where
  "cmp a b = (if a < b then LT else if b < a then GT else EQ)"

text \<open>The value of a byte string read as a big-endian integer.\<close>

definition be_nat :: "bytes \<Rightarrow> nat" where
  "be_nat bs = foldl (\<lambda>acc b. acc * 256 + unat b) 0 bs"

section \<open>\<open>inc_key\<close>\<close>

text \<open>
  \<^verbatim>\<open>for (auto it = key.rbegin(); it != key.rend(); ++it) if (++*it) return;\<close>
  The loop walks the key from its last byte: \<open>inc_key_loop\<close> is that loop on the
  reversed key. Each visited byte is incremented (wrapping at 8 bits); the loop
  returns at the first byte that is nonzero after the increment.
\<close>

fun inc_key_loop :: "bytes \<Rightarrow> bytes" where
  "inc_key_loop [] = []"
| "inc_key_loop (b # bs) =
     (if b + 1 \<noteq> 0 then (b + 1) # bs else (b + 1) # inc_key_loop bs)"

definition inc_key :: "bytes \<Rightarrow> bytes" where
  "inc_key key = rev (inc_key_loop (rev key))"


section \<open>Errors and results\<close>

text \<open>
  Every \<open>throw\<close> of the sources is a value of \<open>error\<close>:
  \<^item> \<open>UnsupportedKeyType\<close>: "unsupported key type";
  \<^item> \<open>KeyDeserializationError\<close>: "key deserialization error";
  \<^item> \<open>DeserializeError\<close>: an exception of the types library on truncated or
    malformed input;
  \<^item> \<open>FieldPositionUnknown\<close>: "key ... has unknown position";
  \<^item> \<open>KeyPositionOutOfRange\<close>: "key position is out of range";
  \<^item> \<open>UnknownQuery\<close>, \<open>QueryNotImplemented\<close>, \<open>ResultTooBig\<close>,
    \<open>UnknownTable\<close>, \<open>UnknownType\<close>: the failures of \<open>query_database\<close>
    and \<open>prepare\<close>;
  \<^item> \<open>StoreError\<close>: \<open>rdb::check\<close> on a status that is not ok;
  \<^item> \<open>NullTypeObj\<close>: a \<open>type_obj\<close> pointer that was never resolved
    (the C++ dereference is undefined; the model stops).
\<close>

datatype error =
    UnsupportedKeyType
  | KeyDeserializationError
  | DeserializeError
  | FieldPositionUnknown string
  | KeyPositionOutOfRange
  | UnknownQuery
  | QueryNotImplemented
  | ResultTooBig
  | UnknownTable string
  | UnknownType string
  | StoreError
  | NullTypeObj

text \<open>
  An \<open>abieos::input_buffer\<close> is the pair of pointers \<open>pos\<close>, \<open>end\<close>; the model
  keeps the bytes between them, so \<open>end - pos\<close> is the length and advancing
  \<open>pos\<close> drops bytes from the front.
\<close>

type_synonym input_buffer = bytes

text \<open>
  A function that writes to a destination vector passed by reference and reads
  from an input buffer passed by reference returns the new destination and the
  new buffer; when it throws, the result is the error together with the
  destination as the throw leaves it.
\<close>

type_synonym op_result = "(error \<times> bytes) + (bytes \<times> input_buffer)"

section \<open>The types library\<close>

text \<open>
  Modelled from the spec: \<open>abieos::native_to_bin\<close> and \<open>abieos::bin_to_native\<close>
  are not part of the sources. The spec gives the canonical binary form of the
  unsigned integers and of names as little-endian, of the type's width; reading
  from a truncated input is an error. A value of such a type is a word of that
  width, ordered as an unsigned number.
\<close>

type_synonym name = "64 word"
type_synonym uint128 = "128 word"

fun le_bytes :: "nat \<Rightarrow> nat \<Rightarrow> bytes" where
  "le_bytes 0 v = []"
| "le_bytes (Suc n) v = of_nat (v mod 256) # le_bytes n (v div 256)"

fun le_nat :: "bytes \<Rightarrow> nat" where
  "le_nat [] = 0"
| "le_nat (b # bs) = unat b + 256 * le_nat bs"

definition native_to_bin :: "bytes \<Rightarrow> 'a::len word \<Rightarrow> bytes" where
  "native_to_bin bin obj = bin @ le_bytes (LENGTH('a) div 8) (unat obj)"

definition bin_to_native :: "input_buffer \<Rightarrow> error + ('a::len word \<times> input_buffer)" where
  "bin_to_native bin =
     (let n = LENGTH('a) div 8 in
      if length bin < n then Inl DeserializeError
      else Inr (of_nat (le_nat (take n bin)), drop n bin))"

text \<open>
  The rest of the library is a parameter of the model:
  \<^item> \<open>read_varuint32\<close>: \<open>bin_to_native<varuint32>(bin).value\<close>, with the rest of
    the input, or \<open>None\<close> when the library throws;
  \<^item> \<open>copy_var T\<close>: the bytes that \<open>native_to_bin(dest, bin_to_native<T>(bin))\<close>
    appends for a type without a fixed width, with the rest of the input, or
    \<open>None\<close> when the library throws (it throws while reading, before anything
    is written);
  \<^item> \<open>string_to_name\<close>: the literal operator \<open>_n\<close>;
  \<^item> \<open>rows_to_bin\<close>: \<open>native_to_bin\<close> of a vector of byte vectors.
\<close>

datatype cpp_type =
    T_bool | T_varuint32 | T_uint8 | T_uint16 | T_uint32 | T_uint64 | T_uint128
  | T_int8 | T_int16 | T_int32 | T_int64 | T_int128 | T_double | T_float128
  | T_name | T_string | T_time_point | T_time_point_sec | T_block_timestamp
  | T_checksum256 | T_public_key | T_bytes | T_transaction_status

record abieos =
  read_varuint32 :: "input_buffer \<Rightarrow> (32 word \<times> input_buffer) option"
  copy_var :: "cpp_type \<Rightarrow> input_buffer \<Rightarrow> (bytes \<times> input_buffer) option"
  string_to_name :: "string \<Rightarrow> name"
  rows_to_bin :: "bytes list \<Rightarrow> bytes"

text \<open>
  The type traits the sources branch on. \<open>std::is_unsigned_v\<close> holds of \<open>bool\<close>
  and of the unsigned integer types; \<open>std::is_integral_v\<close> of these and of the
  signed integer types. Both conditions of the sources list \<open>abieos::uint128\<close>
  on its own, so the 128-bit types are not among the standard integral types, and
  neither trait holds of the enumeration \<open>transaction_status\<close> or of a struct.
\<close>

definition is_unsigned :: "cpp_type \<Rightarrow> bool" where
  "is_unsigned T = (T \<in> set [T_bool, T_uint8, T_uint16, T_uint32, T_uint64])"

definition is_integral :: "cpp_type \<Rightarrow> bool" where
  "is_integral T =
     (T \<in> set [T_bool, T_uint8, T_uint16, T_uint32, T_uint64,
                T_int8, T_int16, T_int32, T_int64])"

text \<open>
  \<open>sizeof(T)\<close>, for the types at which the sources take it (every use is inside an
  \<open>if constexpr\<close> that excludes the other types; they are given 0 here).
\<close>

fun sizeof :: "cpp_type \<Rightarrow> nat" where
  "sizeof T_bool = 1"
| "sizeof T_uint8 = 1"
| "sizeof T_uint16 = 2"
| "sizeof T_uint32 = 4"
| "sizeof T_uint64 = 8"
| "sizeof T_uint128 = 16"
| "sizeof T_int8 = 1"
| "sizeof T_int16 = 2"
| "sizeof T_int32 = 4"
| "sizeof T_int64 = 8"
| "sizeof T_name = 8"
| "sizeof T_checksum256 = 32"
| "sizeof T_time_point = 8"
| "sizeof T_block_timestamp = 4"
| "sizeof _ = 0"

text \<open>
  The width of the canonical form of a type that has a fixed one: the library
  reads and writes such a value as that many raw bytes.
\<close>

fun raw_size :: "cpp_type \<Rightarrow> nat option" where
  "raw_size T_varuint32 = None"
| "raw_size T_string = None"
| "raw_size T_public_key = None"
| "raw_size T_bytes = None"
| "raw_size T_int128 = Some 16"
| "raw_size T_double = Some 8"
| "raw_size T_float128 = Some 16"
| "raw_size T_time_point_sec = Some 4"
| "raw_size T_transaction_status = Some 1"
| "raw_size T = Some (sizeof T)"

section \<open>Key encoding\<close>

text \<open>\<open>std::reverse(bin.begin() + s, bin.end())\<close>\<close>

definition reverse_from :: "nat \<Rightarrow> bytes \<Rightarrow> bytes" where
  "reverse_from s bin = take s bin @ rev (drop s bin)"

text \<open>
  \<open>reverse_bin(bin, f)\<close>: remember the size, run \<open>f\<close>, reverse what lies beyond
  the remembered size. When \<open>f\<close> throws nothing is reversed.
\<close>

definition reverse_bin :: "bytes \<Rightarrow> (bytes \<Rightarrow> (error \<times> bytes) + (bytes \<times> 'r)) \<Rightarrow>
    (error \<times> bytes) + (bytes \<times> 'r)" where
  "reverse_bin bin f =
     (let s = length bin in
      case f bin of
        Inl e \<Rightarrow> Inl e
      | Inr (bin', r) \<Rightarrow> Inr (reverse_from s bin', r))"

definition key_supported :: "cpp_type \<Rightarrow> bool" where
  "key_supported T =
     (is_unsigned T \<or> T = T_name \<or> T = T_uint128 \<or> T = T_checksum256)"

text \<open>
  \<open>fixup_key<T>(bin, f)\<close>: the \<open>if constexpr\<close> selects \<open>reverse_bin\<close> for the
  supported types and the \<open>throw\<close> for every other type, before \<open>f\<close> runs.
\<close>

definition fixup_key :: "cpp_type \<Rightarrow> bytes \<Rightarrow> (bytes \<Rightarrow> (error \<times> bytes) + (bytes \<times> 'r)) \<Rightarrow>
    (error \<times> bytes) + (bytes \<times> 'r)" where
  "fixup_key T bin f =
     (if key_supported T then reverse_bin bin f else Inl (UnsupportedKeyType, bin))"

text \<open>
  \<open>native_to_bin_key<T>(bin, obj)\<close> at a supported \<open>T\<close> whose values are words
  (the unsigned integers, \<open>uint128\<close> and \<open>name\<close>):
  \<open>fixup_key<T>\<close> is \<open>reverse_bin\<close> there and \<open>native_to_bin\<close> does not throw.
  A \<open>bool\<close> is passed as the 8-bit word 0 or 1.
\<close>

definition native_to_bin_key :: "bytes \<Rightarrow> 'a::len word \<Rightarrow> bytes" where
  "native_to_bin_key bin obj =
     (let s = length bin; bin' = native_to_bin bin obj in reverse_from s bin')"

text \<open>
  \<open>bin_to_native_key<T>(b)\<close> at a supported \<open>T\<close> whose values are words of
  \<open>8 * sizeof(T)\<close> bits.
\<close>

definition bin_to_native_key :: "input_buffer \<Rightarrow> error + ('a::len word \<times> input_buffer)" where
  "bin_to_native_key b =
     (let n = LENGTH('a) div 8 in
      if length b < n then Inl KeyDeserializationError
      else
        (let v = rev (take n b) in
         case bin_to_native v of
           Inl e \<Rightarrow> Inl e
         | Inr (x, br) \<Rightarrow> Inr (x, drop n b)))"


text \<open>
  Modelled from the spec: a 256-bit digest is a fixed-width identifier of 32 bytes.
  It is not a number: its canonical form is its 32 bytes in their order, which the
  library writes and reads as they are.
\<close>

typedef checksum256 = "{bs :: bytes. length bs = 32}"
  by (rule exI [of _ "replicate 32 0"]) simp


definition native_to_bin_checksum256 :: "bytes \<Rightarrow> checksum256 \<Rightarrow> bytes" where
  "native_to_bin_checksum256 bin obj = bin @ Rep_checksum256 obj"

definition bin_to_native_checksum256 :: "input_buffer \<Rightarrow> error + (checksum256 \<times> input_buffer)" where
  "bin_to_native_checksum256 bin =
     (if length bin < 32 then Inl DeserializeError
      else Inr (Abs_checksum256 (take 32 bin), drop 32 bin))"

text \<open>
  \<open>native_to_bin_key<abieos::checksum256>\<close> and
  \<open>bin_to_native_key<abieos::checksum256>\<close>: the same two templates, at the digest;
  \<open>sizeof(T)\<close> is 32.
\<close>

definition native_to_bin_key_checksum256 :: "bytes \<Rightarrow> checksum256 \<Rightarrow> bytes" where
  "native_to_bin_key_checksum256 bin obj =
     (let s = length bin; bin' = native_to_bin_checksum256 bin obj in reverse_from s bin')"

definition bin_to_native_key_checksum256 :: "input_buffer \<Rightarrow> error + (checksum256 \<times> input_buffer)" where
  "bin_to_native_key_checksum256 b =
     (if length b < 32 then Inl KeyDeserializationError
      else
        (let v = rev (take 32 b) in
         case bin_to_native_checksum256 v of
           Inl e \<Rightarrow> Inl e
         | Inr (x, br) \<Rightarrow> Inr (x, drop 32 b)))"


section \<open>The type registry\<close>

text \<open>
  A \<open>type\<close> is a struct of six function pointers that only
  \<open>make_type_for<T>()\<close> builds, so it is represented by \<open>T\<close>: calling the member
  \<open>bin_to_bin_key\<close> of \<open>make_type_for<T>()\<close> is \<open>bin_to_bin_key lib T\<close>, and so on.
\<close>

text \<open>
  \<open>abieos::native_to_bin(dest, abieos::bin_to_native<T>(bin))\<close> at a type whose
  canonical form is \<open>n\<close> raw bytes: the read throws when fewer than \<open>n\<close> bytes are
  left, otherwise the same bytes are appended.
\<close>

definition copy_raw :: "nat \<Rightarrow> bytes \<Rightarrow> input_buffer \<Rightarrow> op_result" where
  "copy_raw n dest bin =
     (if length bin < n then Inl (DeserializeError, dest)
      else Inr (dest @ take n bin, drop n bin))"

text \<open>
  \<open>bin_to_bin<T>\<close>, with its three specialisations: the 128-bit integers are
  copied as two 64-bit halves, \<open>transaction_status\<close> as its underlying 8-bit type.
\<close>

definition bin_to_bin :: "abieos \<Rightarrow> cpp_type \<Rightarrow> bytes \<Rightarrow> input_buffer \<Rightarrow> op_result" where
  "bin_to_bin lib T dest bin =
     (if T = T_uint128 \<or> T = T_int128 then
        (case copy_raw 8 dest bin of
           Inl e \<Rightarrow> Inl e
         | Inr (dest', bin') \<Rightarrow> copy_raw 8 dest' bin')
      else if T = T_transaction_status then copy_raw 1 dest bin
      else
        (case raw_size T of
           Some n \<Rightarrow> copy_raw n dest bin
         | None \<Rightarrow>
             (case copy_var lib T bin of
                None \<Rightarrow> Inl (DeserializeError, dest)
              | Some (bs, bin') \<Rightarrow> Inr (dest @ bs, bin'))))"

definition bin_to_bin_key :: "abieos \<Rightarrow> cpp_type \<Rightarrow> bytes \<Rightarrow> input_buffer \<Rightarrow> op_result" where
  "bin_to_bin_key lib T dest bin =
     (if T = T_varuint32 then
        reverse_bin dest (\<lambda>dest.
          case read_varuint32 lib bin of
            None \<Rightarrow> Inl (DeserializeError, dest)
          | Some (v, bin') \<Rightarrow> Inr (native_to_bin dest v, bin'))
      else fixup_key T dest (\<lambda>dest. bin_to_bin lib T dest bin))"

definition query_to_bin_key :: "abieos \<Rightarrow> cpp_type \<Rightarrow> bytes \<Rightarrow> input_buffer \<Rightarrow> op_result" where
  "query_to_bin_key lib T dest bin =
     (if T = T_varuint32 then fixup_key T_uint32 dest (\<lambda>dest. bin_to_bin lib T_uint32 dest bin)
      else fixup_key T dest (\<lambda>dest. bin_to_bin lib T dest bin))"

definition lower_bound_key :: "cpp_type \<Rightarrow> bytes \<Rightarrow> (error \<times> bytes) + bytes" where
  "lower_bound_key T dest =
     (if key_supported T then Inr (dest @ replicate (sizeof T) 0)
      else Inl (UnsupportedKeyType, dest))"

definition upper_bound_key :: "cpp_type \<Rightarrow> bytes \<Rightarrow> (error \<times> bytes) + bytes" where
  "upper_bound_key T dest =
     (if key_supported T then Inr (dest @ replicate (sizeof T) 255)
      else Inl (UnsupportedKeyType, dest))"

definition get_fixed_size :: "cpp_type \<Rightarrow> 32 word" where
  "get_fixed_size T =
     (if is_integral T \<or> T = T_name \<or> T = T_uint128 \<or> T = T_checksum256 \<or>
         T = T_time_point \<or> T = T_block_timestamp
      then of_nat (sizeof T) else 0)"

definition abi_type_to_kv_type :: "string \<Rightarrow> cpp_type option" where
  "abi_type_to_kv_type = map_of
     [(''bool'', T_bool),
      (''varuint32'', T_varuint32),
      (''uint8'', T_uint8),
      (''uint16'', T_uint16),
      (''uint32'', T_uint32),
      (''uint64'', T_uint64),
      (''uint128'', T_uint128),
      (''int8'', T_int8),
      (''int16'', T_int16),
      (''int32'', T_int32),
      (''int64'', T_int64),
      (''int128'', T_int128),
      (''float64'', T_double),
      (''float128'', T_float128),
      (''name'', T_name),
      (''string'', T_string),
      (''time_point'', T_time_point),
      (''time_point_sec'', T_time_point_sec),
      (''block_timestamp_type'', T_block_timestamp),
      (''checksum256'', T_checksum256),
      (''public_key'', T_public_key),
      (''bytes'', T_bytes),
      (''transaction_status'', T_transaction_status)]"

section \<open>Key families\<close>

datatype key_tag =
    tag_fill_status | tag_block | tag_received_block | tag_table_row
  | tag_table_delta | tag_table_index | tag_table_index_ref

fun key_tag_value :: "key_tag \<Rightarrow> 8 word" where
  "key_tag_value tag_fill_status = 0x10"
| "key_tag_value tag_block = 0x20"
| "key_tag_value tag_received_block = 0x30"
| "key_tag_value tag_table_row = 0x50"
| "key_tag_value tag_table_delta = 0x60"
| "key_tag_value tag_table_index = 0x70"
| "key_tag_value tag_table_index_ref = 0x80"

definition append_table_index_key :: "bytes \<Rightarrow> name \<Rightarrow> name \<Rightarrow> bytes" where
  "append_table_index_key dest table index =
     (let dest = native_to_bin_key dest (key_tag_value tag_table_index);
          dest = native_to_bin_key dest table
      in native_to_bin_key dest index)"

definition make_table_index_key :: "name \<Rightarrow> name \<Rightarrow> bytes" where
  "make_table_index_key table index = append_table_index_key [] table index"

text \<open>The overload \<open>append_table_index_state_suffix(dest, block)\<close>.\<close>

definition append_table_index_state_suffix_block :: "bytes \<Rightarrow> 32 word \<Rightarrow> bytes" where
  "append_table_index_state_suffix_block dest block = native_to_bin_key dest (NOT block)"

text \<open>The overload \<open>append_table_index_state_suffix(dest, block, present)\<close>.\<close>

definition append_table_index_state_suffix :: "bytes \<Rightarrow> 32 word \<Rightarrow> bool \<Rightarrow> bytes" where
  "append_table_index_state_suffix dest block present =
     (let dest = native_to_bin_key dest (NOT block)
      in native_to_bin_key dest (of_bool (\<not> present) :: 8 word))"

section \<open>The catalog\<close>

text \<open>
  The fields of \<open>query_config::field\<close>, \<open>key\<close>, \<open>table\<close> and \<open>query\<close> that the
  sources read or write. A \<open>key\<close> points to its field: \<open>key_field\<close> is the field
  it points to. \<open>join_query_is_state\<close> is \<open>join_query->is_state\<close>, and
  \<open>table_fields\<close> is the member \<open>fields\<close> of a table.
\<close>

record kv_field =
  field_name :: string
  field_type :: string
  type_obj :: "cpp_type option"
  byte_position :: "32 word option"

record kv_key =
  key_name :: string
  key_field :: kv_field

record kv_table =
  table_name :: string
  table_fields :: "kv_field list"
  short_name :: name

record kv_query =
  arg_types :: "cpp_type list"
  range_types :: "cpp_type list"
  limit_block_num :: bool
  max_results :: "32 word"
  is_state :: bool
  table_obj :: kv_table
  join_table :: "kv_table option"
  join_query_wasm_name :: name
  join_query_is_state :: bool
  join_key_values :: "kv_key list"
  fields_from_join :: "kv_key list"

record kv_config =
  tables :: "kv_table list"
  query_map :: "name \<Rightarrow> kv_query option"

definition table_names :: "abieos \<Rightarrow> (string \<times> name) list" where
  "table_names lib =
     [(''block_info'', string_to_name lib ''block.info''),
      (''transaction_trace'', string_to_name lib ''ttrace''),
      (''action_trace'', string_to_name lib ''atrace''),
      (''account'', string_to_name lib ''account''),
      (''account_metadata'', string_to_name lib ''account.meta''),
      (''code'', string_to_name lib ''code''),
      (''contract_table'', string_to_name lib ''c.table''),
      (''contract_row'', string_to_name lib ''c.row''),
      (''contract_index64'', string_to_name lib ''c.index64''),
      (''contract_index128'', string_to_name lib ''c.index128''),
      (''contract_index256'', string_to_name lib ''c.index128''),
      (''contract_index_double'', string_to_name lib ''c.index.d''),
      (''contract_index_long_double'', string_to_name lib ''c.index.ld''),
      (''global_property'', string_to_name lib ''glob.prop''),
      (''generated_transaction'', string_to_name lib ''gen.tx''),
      (''protocol_state'', string_to_name lib ''protocol.st''),
      (''permission'', string_to_name lib ''permission''),
      (''permission_link'', string_to_name lib ''perm.link''),
      (''resource_limits'', string_to_name lib ''res.lim''),
      (''resource_usage'', string_to_name lib ''res.usage''),
      (''resource_limits_state'', string_to_name lib ''res.lim.stat''),
      (''resource_limits_config'', string_to_name lib ''res.lim.conf'')]"

text \<open>
  Modelled from the spec: \<open>query_config::config<defs>::prepare(type_map)\<close> is not
  part of the sources. It resolves each field's schema type to its entry of the
  type map and fails with \<open>UnknownType\<close> when there is none.
\<close>

fun resolve_fields :: "(string \<Rightarrow> cpp_type option) \<Rightarrow> kv_field list \<Rightarrow> error + kv_field list" where
  "resolve_fields type_map [] = Inr []"
| "resolve_fields type_map (f # fs) =
     (case type_map (field_type f) of
        None \<Rightarrow> Inl (UnknownType (field_type f))
      | Some T \<Rightarrow>
          (case resolve_fields type_map fs of
             Inl e \<Rightarrow> Inl e
           | Inr fs' \<Rightarrow> Inr (f\<lparr>type_obj := Some T\<rparr> # fs')))"

fun resolve_tables :: "(string \<Rightarrow> cpp_type option) \<Rightarrow> kv_table list \<Rightarrow> error + kv_table list" where
  "resolve_tables type_map [] = Inr []"
| "resolve_tables type_map (tab # tabs) =
     (case resolve_fields type_map (table_fields tab) of
        Inl e \<Rightarrow> Inl e
      | Inr fs \<Rightarrow>
          (case resolve_tables type_map tabs of
             Inl e \<Rightarrow> Inl e
           | Inr tabs' \<Rightarrow> Inr (tab\<lparr>table_fields := fs\<rparr> # tabs')))"

definition query_config_prepare :: "(string \<Rightarrow> cpp_type option) \<Rightarrow> kv_config \<Rightarrow> error + kv_config" where
  "query_config_prepare type_map c =
     (case resolve_tables type_map (tables c) of
        Inl e \<Rightarrow> Inl e
      | Inr tabs \<Rightarrow> Inr (c\<lparr>tables := tabs\<rparr>))"

text \<open>
  The inner loop of \<open>defs::config::prepare\<close>, with \<open>pos\<close> threaded through:
  \<^verbatim>\<open>field.byte_position = pos; auto size = field.type_obj->get_fixed_size();
  if (!size) break; pos += size;\<close>
  The fields after the \<open>break\<close> are left as they were.
\<close>

fun prepare_fields :: "32 word \<Rightarrow> kv_field list \<Rightarrow> error + kv_field list" where
  "prepare_fields pos [] = Inr []"
| "prepare_fields pos (field # rest) =
     (case type_obj field of
        None \<Rightarrow> Inl NullTypeObj
      | Some T \<Rightarrow>
          (let field' = field\<lparr>byte_position := Some pos\<rparr>;
               size = get_fixed_size T
           in if size = 0 then Inr (field' # rest)
              else
                (case prepare_fields (pos + size) rest of
                   Inl e \<Rightarrow> Inl e
                 | Inr rest' \<Rightarrow> Inr (field' # rest'))))"

text \<open>The loop over the tables.\<close>

fun prepare_tables :: "abieos \<Rightarrow> kv_table list \<Rightarrow> error + kv_table list" where
  "prepare_tables lib [] = Inr []"
| "prepare_tables lib (tab # tabs) =
     (case map_of (table_names lib) (table_name tab) of
        None \<Rightarrow> Inl (UnknownTable (table_name tab))
      | Some n \<Rightarrow>
          (case prepare_fields 0 (table_fields tab) of
             Inl e \<Rightarrow> Inl e
           | Inr fs \<Rightarrow>
               (case prepare_tables lib tabs of
                  Inl e \<Rightarrow> Inl e
                | Inr tabs' \<Rightarrow> Inr (tab\<lparr>short_name := n, table_fields := fs\<rparr> # tabs'))))"

definition prepare :: "abieos \<Rightarrow> (string \<Rightarrow> cpp_type option) \<Rightarrow> kv_config \<Rightarrow> error + kv_config" where
  "prepare lib type_map c =
     (case query_config_prepare type_map c of
        Inl e \<Rightarrow> Inl e
      | Inr c' \<Rightarrow>
          (case prepare_tables lib (tables c') of
             Inl e \<Rightarrow> Inl e
           | Inr tabs \<Rightarrow> Inr (c'\<lparr>tables := tabs\<rparr>)))"


section \<open>The query engine\<close>

text \<open>
  The store (\<open>rdb::database\<close>, \<open>rdb::for_each\<close>, \<open>rdb::for_each_subkey\<close> and the
  point lookup \<open>db->Get\<close>) is not part of the sources and is a parameter:
  \<^item> \<open>db_get key\<close>: the value stored at \<open>key\<close>, \<open>None\<close> when the status of
    the lookup is not ok;
  \<^item> \<open>for_each_entries lower upper\<close>: the entries (key and value) that
    \<open>for_each(db, lower, upper, f)\<close> hands to \<open>f\<close>, in the order of the scan, as
    long as \<open>f\<close> asks for more;
  \<^item> \<open>for_each_subkey_entries lower upper\<close>: the same for \<open>for_each_subkey\<close>,
    reduced to the first argument of \<open>f\<close>, the only one \<open>query_database\<close> uses.
\<close>

record database =
  db_get :: "bytes \<Rightarrow> bytes option"
  for_each_entries :: "bytes \<Rightarrow> bytes \<Rightarrow> (bytes \<times> bytes) list"
  for_each_subkey_entries :: "bytes \<Rightarrow> bytes \<Rightarrow> bytes list"

text \<open>
  Modelled from the spec: a scan is a lazy iteration with early exit. The callback
  returns whether the scan goes on; its effects on the variables it captures by
  reference are the state \<open>s\<close>. An exception of the callback ends the scan.
\<close>

fun scan :: "'e list \<Rightarrow> ('e \<Rightarrow> 's \<Rightarrow> error + (bool \<times> 's)) \<Rightarrow> 's \<Rightarrow> error + 's" where
  "scan [] f s = Inr s"
| "scan (x # xs) f s =
     (case f x s of
        Inl e \<Rightarrow> Inl e
      | Inr (continue, s') \<Rightarrow> if continue then scan xs f s' else Inr s')"

definition for_each :: "database \<Rightarrow> bytes \<Rightarrow> bytes \<Rightarrow>
    (bytes \<times> bytes \<Rightarrow> 's \<Rightarrow> error + (bool \<times> 's)) \<Rightarrow> 's \<Rightarrow> error + 's" where
  "for_each db lower upper f s = scan (for_each_entries db lower upper) f s"

definition for_each_subkey :: "database \<Rightarrow> bytes \<Rightarrow> bytes \<Rightarrow>
    (bytes \<Rightarrow> 's \<Rightarrow> error + (bool \<times> 's)) \<Rightarrow> 's \<Rightarrow> error + 's" where
  "for_each_subkey db lower upper f s = scan (for_each_subkey_entries db lower upper) f s"

text \<open>
  \<open>append_fields(dest, src, keys, xform_key)\<close>. The comparison of the position
  with \<open>src.end - src.pos\<close> is one of a \<open>uint32_t\<close> with a \<open>ptrdiff_t\<close>, hence exact.
\<close>

fun append_fields :: "abieos \<Rightarrow> bytes \<Rightarrow> input_buffer \<Rightarrow> kv_key list \<Rightarrow> bool \<Rightarrow>
    (error \<times> bytes) + bytes" where
  "append_fields lib dest src [] xform_key = Inr dest"
| "append_fields lib dest src (key # keys) xform_key =
     (case byte_position (key_field key) of
        None \<Rightarrow> Inl (FieldPositionUnknown (key_name key), dest)
      | Some p \<Rightarrow>
          if length src < unat p then Inl (KeyPositionOutOfRange, dest)
          else
            (case type_obj (key_field key) of
               None \<Rightarrow> Inl (NullTypeObj, dest)
             | Some T \<Rightarrow>
                 (let key_pos = drop (unat p) src in
                  case (if xform_key then bin_to_bin_key lib T dest key_pos
                        else bin_to_bin lib T dest key_pos) of
                    Inl e \<Rightarrow> Inl e
                  | Inr (dest', key_pos') \<Rightarrow> append_fields lib dest' src keys xform_key)))"

text \<open>
  The lambda \<open>add_fields\<close> of \<open>query_database\<close>; it captures \<open>query_bin\<close> by
  reference, so the buffer is threaded through and returned.
\<close>

fun add_fields :: "abieos \<Rightarrow> bytes \<Rightarrow> cpp_type list \<Rightarrow> input_buffer \<Rightarrow>
    error + (bytes \<times> input_buffer)" where
  "add_fields lib dest [] query_bin = Inr (dest, query_bin)"
| "add_fields lib dest (T # types) query_bin =
     (case query_to_bin_key lib T dest query_bin of
        Inl (e, d) \<Rightarrow> Inl e
      | Inr (dest', query_bin') \<Rightarrow> add_fields lib dest' types query_bin')"

text \<open>
  Lines 75 to 83 of \<open>query_database\<close>: the two index bounds \<open>first\<close> and
  \<open>last\<close>, and the buffer that is left.
\<close>

definition query_bounds :: "abieos \<Rightarrow> kv_query \<Rightarrow> name \<Rightarrow> input_buffer \<Rightarrow>
    error + (bytes \<times> bytes \<times> input_buffer)" where
  "query_bounds lib query query_name query_bin =
     (let first_key = make_table_index_key (short_name (table_obj query)) query_name;
          last_key = first_key
      in case add_fields lib first_key (range_types query) query_bin of
           Inl e \<Rightarrow> Inl e
         | Inr (first_key', query_bin1) \<Rightarrow>
             (case add_fields lib last_key (range_types query) query_bin1 of
                Inl e \<Rightarrow> Inl e
              | Inr (last_key', query_bin2) \<Rightarrow> Inr (first_key', last_key', query_bin2)))"

text \<open>
  The callback of the join scan. It captures \<open>row\<close>, a reference to the last
  element of \<open>rows\<close>, and \<open>found_join\<close>; the state is the pair of the two.
\<close>

definition join_callback :: "abieos \<Rightarrow> database \<Rightarrow> kv_query \<Rightarrow> bytes \<times> bytes \<Rightarrow>
    bytes \<times> bool \<Rightarrow> error + (bool \<times> bytes \<times> bool)" where
  "join_callback lib db query entry s =
     (case entry of (k, join_delta_key) \<Rightarrow>
      case s of (row, found_join) \<Rightarrow>
        (case db_get db join_delta_key of
           None \<Rightarrow> Inl StoreError
         | Some join_delta_value \<Rightarrow>
             (case append_fields lib row join_delta_value (fields_from_join query) False of
                Inl (e, d) \<Rightarrow> Inl e
              | Inr row' \<Rightarrow> Inr (False, row', True))))"

text \<open>
  The callback of the scan below one index key. \<open>rows.emplace_back\<close> appends the
  row; \<open>row\<close> is written back to the last place of \<open>rows\<close>; \<open>rows.pop_back()\<close>
  removes it.
\<close>

definition delta_callback :: "abieos \<Rightarrow> database \<Rightarrow> kv_query \<Rightarrow> 32 word \<Rightarrow> bytes \<times> bytes \<Rightarrow>
    bytes list \<Rightarrow> error + (bool \<times> bytes list)" where
  "delta_callback lib db query max_block_num entry rows =
     (case entry of (k, delta_key) \<Rightarrow>
        (case db_get db delta_key of
           None \<Rightarrow> Inl StoreError
         | Some delta_value \<Rightarrow>
             (let rows1 = rows @ [delta_value] in
              case join_table query of
                None \<Rightarrow> Inr (False, rows1)
              | Some jt \<Rightarrow>
                  (let join_key0 = make_table_index_key (short_name jt) (join_query_wasm_name query) in
                   case append_fields lib join_key0 delta_value (join_key_values query) True of
                     Inl (e, d) \<Rightarrow> Inl e
                   | Inr join_key \<Rightarrow>
                       (let join_key_limit_block =
                              (if join_query_is_state query
                               then append_table_index_state_suffix_block join_key max_block_num
                               else join_key)
                        in case for_each db join_key_limit_block join_key
                                  (join_callback lib db query) (delta_value, False) of
                             Inl e \<Rightarrow> Inl e
                           | Inr (row, found_join) \<Rightarrow>
                               (let rows2 = butlast rows1 @ [row] in
                                if \<not> found_join then Inr (False, butlast rows2)
                                else Inr (False, rows2)))))))"

text \<open>
  The callback of the outer scan, one call per index key. The state is \<open>rows\<close>
  and \<open>num_results\<close>; the result of the callback is \<open>++num_results < max_results\<close>.
\<close>

definition group_callback :: "abieos \<Rightarrow> database \<Rightarrow> kv_query \<Rightarrow> 32 word \<Rightarrow> 32 word \<Rightarrow> bytes \<Rightarrow>
    bytes list \<times> 32 word \<Rightarrow> error + (bool \<times> bytes list \<times> 32 word)" where
  "group_callback lib db query max_block_num max_results_eff index_key s =
     (case s of (rows, num_results) \<Rightarrow>
        (let index_key_limit_block =
               (if is_state query
                then append_table_index_state_suffix_block index_key max_block_num
                else index_key)
         in case for_each db index_key_limit_block index_key
                   (delta_callback lib db query max_block_num) rows of
              Inl e \<Rightarrow> Inl e
            | Inr rows' \<Rightarrow>
                (let num_results' = num_results + 1
                 in Inr (num_results' < max_results_eff, rows', num_results'))))"

text \<open>
  \<open>query_database\<close> up to the end of the outer scan: \<open>rows\<close> and \<open>num_results\<close>.
  \<open>query_map\<close> is the map of the configuration.
\<close>

definition query_database_rows :: "abieos \<Rightarrow> database \<Rightarrow> (name \<Rightarrow> kv_query option) \<Rightarrow>
    input_buffer \<Rightarrow> 32 word \<Rightarrow> error + (bytes list \<times> 32 word)" where
  "query_database_rows lib db qmap query_bin head =
     (case bin_to_native query_bin of
        Inl e \<Rightarrow> Inl e
      | Inr (query_name, query_bin0) \<Rightarrow>
     (case qmap query_name of
        None \<Rightarrow> Inl UnknownQuery
      | Some query \<Rightarrow>
     if arg_types query \<noteq> [] then Inl QueryNotImplemented
     else
     (case (if limit_block_num query
            then (case bin_to_native query_bin0 of
                    Inl e \<Rightarrow> Inl e
                  | Inr (v, b) \<Rightarrow> Inr (min head v, b))
            else Inr (0, query_bin0)) of
        Inl e \<Rightarrow> Inl e
      | Inr (max_block_num, query_bin1) \<Rightarrow>
     (case query_bounds lib query query_name query_bin1 of
        Inl e \<Rightarrow> Inl e
      | Inr (first_key, last_key, query_bin2) \<Rightarrow>
     (case bin_to_native query_bin2 of
        Inl e \<Rightarrow> Inl e
      | Inr (cap, query_bin3) \<Rightarrow>
          (let max_results_eff = min cap (max_results query)
           in for_each_subkey db first_key last_key
                (group_callback lib db query max_block_num max_results_eff) ([], 0)))))))"

text \<open>
  \<open>query_database\<close>: the rows are serialised; the test
  \<open>(uint32_t)result.size() != result.size()\<close> fails from \<open>2 ^ 32\<close> bytes on.
\<close>

definition query_database :: "abieos \<Rightarrow> database \<Rightarrow> (name \<Rightarrow> kv_query option) \<Rightarrow>
    input_buffer \<Rightarrow> 32 word \<Rightarrow> error + bytes" where
  "query_database lib db qmap query_bin head =
     (case query_database_rows lib db qmap query_bin head of
        Inl e \<Rightarrow> Inl e
      | Inr (rows, num_results) \<Rightarrow>
          (let result = rows_to_bin lib rows
           in if 2 ^ 32 \<le> length result then Inl ResultTooBig else Inr result))"

section \<open>The query bounds as the specification words them\<close>

text \<open>
  The specification's step 3, in its own words: "For each \<open>range_type\<close> in order:
  append \<open>encode_query_arg_as_key(first, query_bin)\<close> then
  \<open>encode_query_arg_as_key(last, query_bin)\<close>." This is not the source's loop
  (\<open>query_bounds\<close> is); it is here to be compared with it.
\<close>

fun spec_range_bounds :: "abieos \<Rightarrow> bytes \<Rightarrow> bytes \<Rightarrow> cpp_type list \<Rightarrow> input_buffer \<Rightarrow>
    error + (bytes \<times> bytes \<times> input_buffer)" where
  "spec_range_bounds lib first_key last_key [] query_bin = Inr (first_key, last_key, query_bin)"
| "spec_range_bounds lib first_key last_key (T # types) query_bin =
     (case query_to_bin_key lib T first_key query_bin of
        Inl (e, d) \<Rightarrow> Inl e
      | Inr (first_key', query_bin1) \<Rightarrow>
          (case query_to_bin_key lib T last_key query_bin1 of
             Inl (e, d) \<Rightarrow> Inl e
           | Inr (last_key', query_bin2) \<Rightarrow>
               spec_range_bounds lib first_key' last_key' types query_bin2))"

definition spec_query_bounds :: "abieos \<Rightarrow> kv_query \<Rightarrow> name \<Rightarrow> input_buffer \<Rightarrow>
    error + (bytes \<times> bytes \<times> input_buffer)" where
  "spec_query_bounds lib query query_name query_bin =
     (let first_key = make_table_index_key (short_name (table_obj query)) query_name
      in spec_range_bounds lib first_key first_key (range_types query) query_bin)"

section \<open>The range arguments of a query\<close>

text \<open>
  \<open>query_to_bin_key<T>\<close> reads a range argument of a type that encodes as a key
  in its canonical form of \<open>sizeof(T)\<close> bytes, and an argument of type
  \<open>varuint32\<close> as a \<open>uint32_t\<close>, 4 raw bytes. \<open>query_arg_type\<close> holds of these
  types, \<open>query_arg_size\<close> is the number of bytes read.
\<close>

definition query_arg_type :: "cpp_type \<Rightarrow> bool" where
  "query_arg_type T = (key_supported T \<or> T = T_varuint32)"

definition query_arg_size :: "cpp_type \<Rightarrow> nat" where
  "query_arg_size T = (if T = T_varuint32 then 4 else sizeof T)"

section \<open>The fixed size of a resolved field\<close>

text \<open>
  \<open>field.type_obj->get_fixed_size()\<close>, as a function of the field; it is used to
  state where \<open>prepare\<close> puts the fields.
\<close>

definition field_fixed_size :: "kv_field \<Rightarrow> 32 word" where
  "field_fixed_size f = (case type_obj f of None \<Rightarrow> 0 | Some T \<Rightarrow> get_fixed_size T)"

section \<open>The bytes of a field in a row\<close>

text \<open>
  A field lies in a row when its position is known, its type has a canonical form
  of fixed width and the row holds that many bytes from the position on;
  \<open>field_bytes\<close> are then those bytes, the field in canonical form.
\<close>

definition field_in_row :: "bytes \<Rightarrow> kv_key \<Rightarrow> bool" where
  "field_in_row src key =
     (case byte_position (key_field key) of
        None \<Rightarrow> False
      | Some p \<Rightarrow>
          (case type_obj (key_field key) of
             None \<Rightarrow> False
           | Some T \<Rightarrow>
               (case raw_size T of
                  None \<Rightarrow> False
                | Some n \<Rightarrow> unat p + n \<le> length src)))"

definition field_bytes :: "bytes \<Rightarrow> kv_key \<Rightarrow> bytes" where
  "field_bytes src key =
     (case byte_position (key_field key) of
        None \<Rightarrow> []
      | Some p \<Rightarrow>
          (case type_obj (key_field key) of
             None \<Rightarrow> []
           | Some T \<Rightarrow>
               (case raw_size T of
                  None \<Rightarrow> []
                | Some n \<Rightarrow> take n (drop (unat p) src))))"

section \<open>Concrete inputs\<close>

text \<open>
  The inputs at which the theorems below are instantiated. They use fixed-width
  types only, so the library instance rejects every variable-width value.
\<close>

definition example_lib :: abieos where
  "example_lib =
     \<lparr>read_varuint32 = (\<lambda>bin. None),
      copy_var = (\<lambda>T bin. None),
      string_to_name = (\<lambda>s. of_nat (length s)),
      rows_to_bin = concat\<rparr>"

definition example_table :: kv_table where
  "example_table = \<lparr>table_name = ''account'', table_fields = [], short_name = 1\<rparr>"

text \<open>A query over two 8-bit range fields, without join.\<close>

definition example_query :: kv_query where
  "example_query =
     \<lparr>arg_types = [], range_types = [T_uint8, T_uint8], limit_block_num = False,
      max_results = 10, is_state = False, table_obj = example_table,
      join_table = None, join_query_wasm_name = 0, join_query_is_state = False,
      join_key_values = [], fields_from_join = []\<rparr>"

text \<open>
  A 16-bit field at offset 0, a 32-bit field at offset 2 and a 128-bit field at
  offset 0 of a row, and a field whose position was never computed.
\<close>

definition example_key16 :: kv_key where
  "example_key16 =
     \<lparr>key_name = ''k16'',
      key_field = \<lparr>field_name = ''k16'', field_type = ''uint16'',
                   type_obj = Some T_uint16, byte_position = Some 0\<rparr>\<rparr>"

definition example_key32 :: kv_key where
  "example_key32 =
     \<lparr>key_name = ''k32'',
      key_field = \<lparr>field_name = ''k32'', field_type = ''uint32'',
                   type_obj = Some T_uint32, byte_position = Some 2\<rparr>\<rparr>"

definition example_key128 :: kv_key where
  "example_key128 =
     \<lparr>key_name = ''k128'',
      key_field = \<lparr>field_name = ''k128'', field_type = ''uint128'',
                   type_obj = Some T_uint128, byte_position = Some 0\<rparr>\<rparr>"

definition example_key_unset :: kv_key where
  "example_key_unset =
     \<lparr>key_name = ''late'',
      key_field = \<lparr>field_name = ''late'', field_type = ''uint8'',
                   type_obj = Some T_uint8, byte_position = None\<rparr>\<rparr>"

text \<open>
  The same query with a join: the join key is the 16-bit field of the outer row,
  and the 32-bit field of the join row is lifted into the result.
\<close>

definition example_join_query :: kv_query where
  "example_join_query =
     example_query
       \<lparr>join_table := Some example_table, join_query_wasm_name := 3,
        join_key_values := [example_key16], fields_from_join := [example_key32]\<rparr>"

text \<open>
  Modelled from the spec: the range scan of the store is ascending from \<open>lower\<close>
  and ends behind the last key that is not above \<open>upper\<close>; \<open>upper\<close> is a prefix
  bracket, so a key is compared with it over the length of \<open>upper\<close>. \<open>index\<close>
  lists the entries of the store in key order.
\<close>

definition range_scan :: "(bytes \<times> bytes) list \<Rightarrow> bytes \<Rightarrow> bytes \<Rightarrow> (bytes \<times> bytes) list" where
  "range_scan index lower upper =
     filter (\<lambda>e. bytewise_cmp lower (fst e) \<noteq> GT \<and>
                 bytewise_cmp (take (length upper) (fst e)) upper \<noteq> GT) index"

text \<open>
  A store made of index entries (the index key and, as its value, the key of the
  row), in key order, and of rows by key. The scan below a key is the range scan;
  the scan over the groups yields the index keys between the two bounds.
\<close>

definition store_of :: "(bytes \<times> bytes) list \<Rightarrow> (bytes \<times> bytes) list \<Rightarrow> database" where
  "store_of index rows =
     \<lparr>db_get = map_of rows,
      for_each_entries = range_scan index,
      for_each_subkey_entries =
        (\<lambda>lower upper. filter (\<lambda>g. bytewise_cmp lower g \<noteq> GT \<and> bytewise_cmp g upper \<noteq> GT)
                         (map fst index))\<rparr>"

text \<open>
  Two index entries of the query named 2 on the table with short name 1, with the
  index fields (1, 1) and (2, 2), and an index entry of the join query named 3
  whose key is the 16-bit field of the first row, in key form.
\<close>

definition example_index :: "(bytes \<times> bytes) list" where
  "example_index =
     [(make_table_index_key 1 2 @ [1, 1], [0x20, 1]),
      (make_table_index_key 1 2 @ [2, 2], [0x20, 2])]"

definition example_join_index :: "(bytes \<times> bytes) list" where
  "example_join_index = example_index @ [(make_table_index_key 1 3 @ [0, 7], [0x20, 9])]"

definition example_rows :: "(bytes \<times> bytes) list" where
  "example_rows =
     [([0x20, 1], [7, 0, 1, 2, 3, 4]),
      ([0x20, 2], [8, 0, 1, 2, 3, 4]),
      ([0x20, 9], [9, 9, 0, 1, 2, 3])]"

text \<open>
  The same join on a state table: the join index holds one version of the entry,
  written at block 12 with \<open>present = true\<close>.
\<close>

definition example_state_join_query :: kv_query where
  "example_state_join_query = example_join_query\<lparr>join_query_is_state := True\<rparr>"

definition example_state_join_index :: "(bytes \<times> bytes) list" where
  "example_state_join_index =
     example_index @
     [(append_table_index_state_suffix (make_table_index_key 1 3 @ [0, 7]) 12 True, [0x20, 9])]"

definition example_state_join_db :: database where
  "example_state_join_db = store_of example_state_join_index example_rows"



text \<open>The store without the join entry, and with it.\<close>

definition example_db :: database where
  "example_db = store_of example_index example_rows"

definition example_join_db :: database where
  "example_join_db = store_of example_join_index example_rows"

definition example_query_map :: "kv_query \<Rightarrow> name \<Rightarrow> kv_query option" where
  "example_query_map query n = (if n = 2 then Some query else None)"

text \<open>A table of three fixed-width fields, a string, and a field behind the string.\<close>

definition example_config :: kv_config where
  "example_config =
     \<lparr>tables =
        [\<lparr>table_name = ''account'',
          table_fields =
            [\<lparr>field_name = ''a'', field_type = ''uint64'', type_obj = None, byte_position = None\<rparr>,
             \<lparr>field_name = ''b'', field_type = ''uint32'', type_obj = None, byte_position = None\<rparr>,
             \<lparr>field_name = ''c'', field_type = ''string'', type_obj = None, byte_position = None\<rparr>,
             \<lparr>field_name = ''d'', field_type = ''uint8'', type_obj = None, byte_position = None\<rparr>],
          short_name = 0\<rparr>],
      query_map = (\<lambda>n. None)\<rparr>"

text \<open>The configuration that \<open>prepare\<close> makes of it.\<close>

definition example_prepared :: kv_config where
  "example_prepared =
     \<lparr>tables =
        [\<lparr>table_name = ''account'',
          table_fields =
            [\<lparr>field_name = ''a'', field_type = ''uint64'', type_obj = Some T_uint64,
              byte_position = Some 0\<rparr>,
             \<lparr>field_name = ''b'', field_type = ''uint32'', type_obj = Some T_uint32,
              byte_position = Some 8\<rparr>,
             \<lparr>field_name = ''c'', field_type = ''string'', type_obj = Some T_string,
              byte_position = Some 12\<rparr>,
             \<lparr>field_name = ''d'', field_type = ''uint8'', type_obj = Some T_uint8,
              byte_position = None\<rparr>],
          short_name = 7\<rparr>],
      query_map = (\<lambda>n. None)\<rparr>"

section \<open>Properties of \<open>inc_key\<close>\<close>

lemma be_nat_snoc: "be_nat (bs @ [b]) = be_nat bs * 256 + unat b"
  by (simp add: be_nat_def)

lemma be_nat_Nil: "be_nat [] = 0"
  by (simp add: be_nat_def)

lemma be_nat_bound: "be_nat bs < 256 ^ length bs"
proof (induction bs rule: rev_induct)
  case Nil
  show ?case by (simp add: be_nat_Nil)
next
  case (snoc b bs)
  have "unat b < 256" using unsigned_less [of b] by simp
  with snoc show ?case by (simp add: be_nat_snoc)
qed

lemma be_nat_append: "be_nat (xs @ ys) = be_nat xs * 256 ^ length ys + be_nat ys"
proof (induction ys rule: rev_induct)
  case Nil
  show ?case by (simp add: be_nat_Nil)
next
  case (snoc y ys)
  have "be_nat (xs @ ys @ [y]) = be_nat ((xs @ ys) @ [y])" by simp
  also have "\<dots> = be_nat (xs @ ys) * 256 + unat y" by (rule be_nat_snoc)
  finally show ?case using snoc by (simp add: be_nat_snoc algebra_simps)
qed

lemma be_nat_Cons: "be_nat (x # xs) = unat x * 256 ^ length xs + be_nat xs"
  using be_nat_append [of "[x]" xs] by (simp add: be_nat_def)

lemma bytewise_cmp_be_nat:
  "length a = length b \<Longrightarrow> bytewise_cmp a b = cmp (be_nat a) (be_nat b)"
proof (induction a b rule: list_induct2)
  case Nil
  show ?case by (simp add: cmp_def)
next
  case (Cons x xs y ys)
  have bx: "be_nat xs < 256 ^ length xs" by (rule be_nat_bound)
  have by': "be_nat ys < 256 ^ length xs" using be_nat_bound [of ys] Cons.hyps by simp
  show ?case
  proof (cases "x < y")
    case True
    then have "unat x + 1 \<le> unat y" by (simp add: word_less_nat_alt)
    then have "(unat x + 1) * 256 ^ length xs \<le> unat y * 256 ^ length xs"
      by (rule mult_le_mono1)
    with bx have "be_nat (x # xs) < be_nat (y # ys)"
      using Cons.hyps by (simp add: be_nat_Cons algebra_simps)
    with True show ?thesis by (simp add: cmp_def)
  next
    case False
    show ?thesis
    proof (cases "y < x")
      case True
      then have "unat y + 1 \<le> unat x" by (simp add: word_less_nat_alt)
      then have "(unat y + 1) * 256 ^ length xs \<le> unat x * 256 ^ length xs"
        by (rule mult_le_mono1)
      with by' have "be_nat (y # ys) < be_nat (x # xs)"
        using Cons.hyps by (simp add: be_nat_Cons algebra_simps)
      with True False show ?thesis by (simp add: cmp_def)
    next
      case False
      with \<open>\<not> x < y\<close> have "x = y" by simp
      with Cons show ?thesis by (simp add: be_nat_Cons cmp_def)
    qed
  qed
qed

lemma length_inc_key_loop: "length (inc_key_loop bs) = length bs"
  by (induction bs) simp_all

lemma unat_byte_less: "unat (b :: byte) < 256"
  using unsigned_less [of b] by simp

lemma unat_byte_255: "(unat (b :: byte) = 255) = (b = 255)"
  by (simp add: word_unat_eq_iff)

lemma unat_byte_succ: "unat (b + 1 :: byte) = (unat b + 1) mod 256"
  by (simp add: unat_word_ariths)

lemma byte_inc_zero: "(b + 1 = 0) = (b = (255 :: byte))"
proof -
  have "(b + 1 = 0) = (unat (b + 1) = 0)" by (simp add: unat_eq_0)
  also have "\<dots> = (unat b = 255)"
    using unat_byte_less [of b] by (simp add: unat_byte_succ mod_eq_0_iff_dvd) presburger
  finally show ?thesis by (simp add: unat_byte_255)
qed

lemma unat_byte_inc: "b \<noteq> (255 :: byte) \<Longrightarrow> unat (b + 1) = unat b + 1"
  using unat_byte_less [of b] unat_byte_255 [of b] by (simp add: unat_byte_succ)

lemma be_nat_rev_inc_key_loop:
  "be_nat (rev (inc_key_loop bs)) = (be_nat (rev bs) + 1) mod 256 ^ length bs"
proof (induction bs)
  case Nil
  show ?case by (simp add: be_nat_Nil)
next
  case (Cons b bs)
  show ?case
  proof (cases "b = 255")
    case True
    have z: "(255 :: byte) + 1 = 0" by simp
    have u: "unat (255 :: byte) = 255" by simp
    have "be_nat (rev (inc_key_loop (b # bs))) = be_nat (rev (inc_key_loop bs)) * 256"
      using True z by (simp add: be_nat_snoc)
    also have "\<dots> = 256 * ((be_nat (rev bs) + 1) mod 256 ^ length bs)"
      using Cons by simp
    also have "\<dots> = (256 * (be_nat (rev bs) + 1)) mod (256 * 256 ^ length bs)"
      by (rule mult_mod_right)
    also have "256 * (be_nat (rev bs) + 1) = be_nat (rev (b # bs)) + 1"
      using True u by (simp add: be_nat_snoc)
    finally show ?thesis by simp
  next
    case False
    have "unat b + 1 < 256" using unat_byte_less [of b] unat_byte_255 [of b] False by simp
    moreover have "be_nat (rev bs) < 256 ^ length bs" using be_nat_bound [of "rev bs"] by simp
    ultimately have "be_nat (rev bs) * 256 + (unat b + 1) < 256 * 256 ^ length bs"
      by (simp add: algebra_simps) 
    with False show ?thesis by (simp add: be_nat_snoc byte_inc_zero unat_byte_inc)
  qed
qed


lemma all_ff_replicate: "(\<forall>b\<in>set k. b = c) \<Longrightarrow> k = replicate (length k) c"
  by (induction k) simp_all

lemma inc_key_loop_all_ff: "inc_key_loop (replicate n 255) = replicate n 0"
  by (induction n) simp_all

lemma be_nat_rev_max:
  "(be_nat (rev bs) + 1 = 256 ^ length bs) = (\<forall>b\<in>set bs. b = 255)"
proof (induction bs)
  case Nil
  show ?case by (simp add: be_nat_Nil)
next
  case (Cons b bs)
  have lb: "unat b < 256" by (rule unat_byte_less)
  have lbs: "be_nat (rev bs) < 256 ^ length bs" using be_nat_bound [of "rev bs"] by simp
  show ?case
  proof (cases "b = 255")
    case True
    have u: "unat (255 :: byte) = 255" by simp
    have "(be_nat (rev (b # bs)) + 1 = 256 ^ length (b # bs))
        = (256 * (be_nat (rev bs) + 1) = 256 * 256 ^ length bs)"
      using True u by (simp add: be_nat_snoc mult.commute)
    also have "\<dots> = (be_nat (rev bs) + 1 = 256 ^ length bs)"
      by (simp only: mult_cancel1) simp
    finally show ?thesis using Cons True by simp
  next
    case False
    then have "unat b + 1 < 256" using lb unat_byte_255 [of b] by simp
    then have "be_nat (rev bs) * 256 + unat b + 1 < 256 * 256 ^ length bs"
      using lbs by simp
    with False show ?thesis by (simp add: be_nat_snoc)
  qed
qed

text \<open>
  Claim C6. For a key \<open>k\<close> that is not empty and not all \<open>0xFF\<close>, \<open>inc_key k\<close> has
  the length of \<open>k\<close>, its big-endian value is that of \<open>k\<close> plus one, it is greater
  than \<open>k\<close> in the byte-lexicographic order, and no byte string of that length lies
  strictly between the two. A key that is all \<open>0xFF\<close> wraps to all zero bytes.
\<close>

theorem inc_key_successor:
  "(k \<noteq> [] \<and> (\<exists>b\<in>set k. b \<noteq> 255) \<longrightarrow>
      length (inc_key k) = length k \<and>
      be_nat (inc_key k) = be_nat k + 1 \<and>
      bytewise_cmp k (inc_key k) = LT \<and>
      (\<forall>j. length j = length k \<longrightarrow>
         \<not> (bytewise_cmp k j = LT \<and> bytewise_cmp j (inc_key k) = LT))) \<and>
   ((\<forall>b\<in>set k. b = 255) \<longrightarrow> inc_key k = replicate (length k) 0)"
proof (intro conjI impI)
  assume "\<forall>b\<in>set k. b = 255"
  then have "k = replicate (length k) 255" by (rule all_ff_replicate)
  then have "rev k = replicate (length k) 255" by (metis rev_replicate)
  then show "inc_key k = replicate (length k) 0"
    by (simp add: inc_key_def inc_key_loop_all_ff)
next
  assume a: "k \<noteq> [] \<and> (\<exists>b\<in>set k. b \<noteq> 255)"
  show len: "length (inc_key k) = length k"
    by (simp add: inc_key_def length_inc_key_loop)
  have "be_nat k + 1 \<noteq> 256 ^ length k"
    using a be_nat_rev_max [of "rev k"] by auto
  moreover have "be_nat k < 256 ^ length k" by (rule be_nat_bound)
  ultimately have lt: "be_nat k + 1 < 256 ^ length k" by simp
  show val: "be_nat (inc_key k) = be_nat k + 1"
    using be_nat_rev_inc_key_loop [of "rev k"] lt by (simp add: inc_key_def)
  show "bytewise_cmp k (inc_key k) = LT"
    using val len by (simp add: bytewise_cmp_be_nat cmp_def)
  show "\<forall>j. length j = length k \<longrightarrow>
         \<not> (bytewise_cmp k j = LT \<and> bytewise_cmp j (inc_key k) = LT)"
  proof (intro allI impI notI)
    fix j assume lj: "length j = length k"
      and b: "bytewise_cmp k j = LT \<and> bytewise_cmp j (inc_key k) = LT"
    from b lj have "be_nat k < be_nat j"
      by (simp add: bytewise_cmp_be_nat cmp_def split: if_splits)
    moreover from b lj len have "be_nat j < be_nat (inc_key k)"
      by (simp add: bytewise_cmp_be_nat cmp_def split: if_splits)
    ultimately show False using val by simp
  qed
qed

theorem inc_key_successor_witness:
  "[1, 255 :: byte] \<noteq> [] \<and> (1 :: byte) \<noteq> 255 \<and>
   length (inc_key [1, 255]) = length [1, 255 :: byte] \<and>
   be_nat (inc_key [1, 255]) = be_nat [1, 255] + 1 \<and>
   bytewise_cmp [1, 255] (inc_key [1, 255]) = LT \<and>
   inc_key [255, 255] = [0, 0]"
  using inc_key_successor [of "[1, 255]"] inc_key_successor [of "[255, 255]"]
  by simp

section \<open>The key encoding: order and round trip\<close>

lemma length_le_bytes: "length (le_bytes n v) = n"
  by (induction n arbitrary: v) simp_all

lemma unat_byte_of_nat_mod: "unat (of_nat (v mod 256) :: byte) = v mod 256"
  by (simp add: unat_of_nat)

lemma be_nat_rev_le_bytes: "be_nat (rev (le_bytes n v)) = v mod 256 ^ n"
proof (induction n arbitrary: v)
  case 0
  show ?case by (simp add: be_nat_Nil)
next
  case (Suc n)
  have "be_nat (rev (le_bytes (Suc n) v)) = (v div 256 mod 256 ^ n) * 256 + v mod 256"
    using Suc [of "v div 256"] by (simp add: be_nat_snoc unat_byte_of_nat_mod)
  also have "\<dots> = v mod (256 * 256 ^ n)"
    using mod_mult2_eq [of v 256 "256 ^ n"] by simp
  finally show ?case by simp
qed

lemma le_nat_be_nat: "le_nat bs = be_nat (rev bs)"
  by (induction bs) (simp_all add: be_nat_Nil be_nat_snoc)

lemma native_to_bin_key_eq:
  "native_to_bin_key bin (obj :: 'a::len word) = bin @ rev (le_bytes (LENGTH('a) div 8) (unat obj))"
  by (simp add: native_to_bin_key_def native_to_bin_def reverse_from_def)

lemma pow256_len: "8 dvd LENGTH('a::len) \<Longrightarrow> (256::nat) ^ (LENGTH('a) div 8) = 2 ^ LENGTH('a)"
proof -
  assume "8 dvd LENGTH('a)"
  then obtain k where k: "LENGTH('a) = 8 * k" by (auto simp: dvd_def)
  have "(256::nat) ^ k = (2 ^ 8) ^ k" by simp
  also have "\<dots> = 2 ^ (8 * k)" by (rule power_mult [symmetric])
  finally show ?thesis using k by simp
qed

lemma be_nat_key:
  assumes "8 dvd LENGTH('a::len)"
  shows "be_nat (rev (le_bytes (LENGTH('a) div 8) (unat (w :: 'a word)))) = unat w"
proof -
  have "unat w < 2 ^ LENGTH('a)" by (rule unsigned_less)
  then have "unat w < 256 ^ (LENGTH('a) div 8)" using pow256_len [OF assms] by simp
  then show ?thesis by (simp add: be_nat_rev_le_bytes)
qed

lemma bytewise_cmp_prefix: "bytewise_cmp (p @ a) (p @ b) = bytewise_cmp a b"
  by (induction p) simp_all

lemma cmp_unat: "cmp (unat a) (unat b) = cmp a (b :: 'a::len word)"
  by (simp add: cmp_def word_less_nat_alt)

lemma key_order:
  assumes "8 dvd LENGTH('a::len)"
  shows "bytewise_cmp (native_to_bin_key bin (a :: 'a word)) (native_to_bin_key bin b) = cmp a b"
proof -
  let ?n = "LENGTH('a) div 8"
  have "bytewise_cmp (native_to_bin_key bin a) (native_to_bin_key bin b)
      = bytewise_cmp (rev (le_bytes ?n (unat a))) (rev (le_bytes ?n (unat b)))"
    by (simp add: native_to_bin_key_eq bytewise_cmp_prefix)
  also have "\<dots> = cmp (be_nat (rev (le_bytes ?n (unat a)))) (be_nat (rev (le_bytes ?n (unat b))))"
    by (rule bytewise_cmp_be_nat) (simp add: length_le_bytes)
  also have "\<dots> = cmp (unat a) (unat b)"
    by (simp only: be_nat_key [OF assms])
  finally show ?thesis by (simp add: cmp_unat)
qed

lemma key_roundtrip:
  assumes "8 dvd LENGTH('a::len)"
  shows "bin_to_native_key (native_to_bin_key [] (v :: 'a word) @ rest) = Inr (v, rest)"
proof -
  let ?n = "LENGTH('a) div 8"
  let ?k = "rev (le_bytes ?n (unat v))"
  have len: "length ?k = ?n" by (simp add: length_le_bytes)
  have val: "le_nat (rev ?k) = unat v"
    using be_nat_key [OF assms, of v] by (simp add: le_nat_be_nat)
  have "(bin_to_native (rev ?k) :: error + ('a word \<times> bytes)) = Inr (v, [])"
    using len val by (simp add: bin_to_native_def Let_def length_le_bytes)
  then show ?thesis
    using len by (simp add: bin_to_native_key_def native_to_bin_key_eq Let_def length_le_bytes)
qed


lemma length_Rep_checksum256: "length (Rep_checksum256 a) = 32"
  using Rep_checksum256 [of a] by simp

lemma native_to_bin_key_checksum256_eq:
  "native_to_bin_key_checksum256 bin obj = bin @ rev (Rep_checksum256 obj)"
  by (simp add: native_to_bin_key_checksum256_def native_to_bin_checksum256_def reverse_from_def)



lemma checksum256_roundtrip:
  "bin_to_native_key_checksum256 (native_to_bin_key_checksum256 [] v @ rest) = Inr (v, rest)"
  by (simp add: bin_to_native_key_checksum256_def native_to_bin_key_checksum256_eq
      bin_to_native_checksum256_def length_Rep_checksum256 Rep_checksum256_inverse Let_def)





text \<open>
  Claim C4. For each supported key type, \<open>bin_to_native_key\<close> applied to the bytes
  that \<open>native_to_bin_key\<close> produces for \<open>v\<close> returns \<open>v\<close> and consumes exactly
  those bytes: for the unsigned integers of 8 to 64 bits, \<open>uint128\<close>, \<open>name\<close>, any
  unsigned value of 256 bits, and the 32-byte digest \<open>checksum256\<close>.
\<close>

theorem bin_to_native_key_roundtrip:
  "bin_to_native_key (native_to_bin_key [] (v8 :: 8 word) @ rest) = Inr (v8, rest) \<and>
   bin_to_native_key (native_to_bin_key [] (v16 :: 16 word) @ rest) = Inr (v16, rest) \<and>
   bin_to_native_key (native_to_bin_key [] (v32 :: 32 word) @ rest) = Inr (v32, rest) \<and>
   bin_to_native_key (native_to_bin_key [] (v64 :: 64 word) @ rest) = Inr (v64, rest) \<and>
   bin_to_native_key (native_to_bin_key [] (v128 :: uint128) @ rest) = Inr (v128, rest) \<and>
   bin_to_native_key (native_to_bin_key [] (vn :: name) @ rest) = Inr (vn, rest) \<and>
   bin_to_native_key (native_to_bin_key [] (v256 :: 256 word) @ rest) = Inr (v256, rest) \<and>
   bin_to_native_key_checksum256 (native_to_bin_key_checksum256 [] vc @ rest) = Inr (vc, rest)"
proof -
  have w: "bin_to_native_key (native_to_bin_key [] (v8 :: 8 word) @ rest) = Inr (v8, rest)"
    "bin_to_native_key (native_to_bin_key [] (v16 :: 16 word) @ rest) = Inr (v16, rest)"
    "bin_to_native_key (native_to_bin_key [] (v32 :: 32 word) @ rest) = Inr (v32, rest)"
    "bin_to_native_key (native_to_bin_key [] (v64 :: 64 word) @ rest) = Inr (v64, rest)"
    "bin_to_native_key (native_to_bin_key [] (v128 :: uint128) @ rest) = Inr (v128, rest)"
    "bin_to_native_key (native_to_bin_key [] (vn :: name) @ rest) = Inr (vn, rest)"
    "bin_to_native_key (native_to_bin_key [] (v256 :: 256 word) @ rest) = Inr (v256, rest)"
    by (rule key_roundtrip, simp)+
  show ?thesis using w checksum256_roundtrip [of vc rest] by blast
qed

section \<open>The model of the converters agrees with the library's two functions\<close>

text \<open>
  The two readings of the model agree: at a supported type, \<open>fixup_key\<close> around
  \<open>native_to_bin\<close> is \<open>native_to_bin_key\<close>.
\<close>

lemma fixup_key_native_to_bin:
  "key_supported T \<Longrightarrow>
   fixup_key T bin (\<lambda>bin. Inr (native_to_bin bin obj, r)) = Inr (native_to_bin_key bin obj, r)"
  by (simp add: fixup_key_def reverse_bin_def native_to_bin_key_def Let_def)

text \<open>
  Copying the raw bytes of a value is reading it with \<open>bin_to_native\<close> and writing
  it with \<open>native_to_bin\<close>, for every width that is a whole number of bytes.
\<close>

lemma copy_raw_native:
  assumes "8 dvd LENGTH('a::len)"
  shows "copy_raw (LENGTH('a) div 8) dest bin =
           (case bin_to_native bin of
              Inl e \<Rightarrow> Inl (e, dest)
            | Inr (v :: 'a word, bin') \<Rightarrow> Inr (native_to_bin dest v, bin'))"
proof (cases "length bin < LENGTH('a) div 8")
  case True
  then show ?thesis by (simp add: copy_raw_def bin_to_native_def Let_def)
next
  case False
  let ?n = "LENGTH('a) div 8"
  let ?v = "take ?n bin"
  have len: "length ?v = ?n" using False by simp
  have "le_nat ?v < 256 ^ ?n"
    using be_nat_bound [of "rev ?v"] len by (simp add: le_nat_be_nat)
  then have lt: "le_nat ?v < 2 ^ LENGTH('a)" using pow256_len [OF assms] by simp
  have "le_bytes ?n (le_nat ?v) = ?v"
  proof -
    have "\<And>bs. le_bytes (length bs) (le_nat bs) = bs"
    proof -
      fix bs :: bytes
      show "le_bytes (length bs) (le_nat bs) = bs"
      proof (induction bs)
        case Nil
        show ?case by simp
      next
        case (Cons b bs)
        have "unat b < 256" by (rule unat_byte_less)
        then show ?case using Cons by simp
      qed
    qed
    from this [of ?v] len show ?thesis by simp
  qed
  moreover have "unat (of_nat (le_nat ?v) :: 'a word) = le_nat ?v"
    using lt by (simp add: unat_of_nat)
  ultimately show ?thesis
    using False by (simp add: copy_raw_def bin_to_native_def native_to_bin_def Let_def)
qed

text \<open>The same two facts at the digest.\<close>

lemma fixup_key_native_to_bin_checksum256:
  "fixup_key T_checksum256 bin (\<lambda>bin. Inr (native_to_bin_checksum256 bin obj, r)) =
     Inr (native_to_bin_key_checksum256 bin obj, r)"
  by (simp add: fixup_key_def key_supported_def reverse_bin_def
      native_to_bin_key_checksum256_def Let_def)

lemma copy_raw_checksum256:
  "copy_raw 32 dest bin =
     (case bin_to_native_checksum256 bin of
        Inl e \<Rightarrow> Inl (e, dest)
      | Inr (v, bin') \<Rightarrow> Inr (native_to_bin_checksum256 dest v, bin'))"
  by (simp add: copy_raw_def bin_to_native_checksum256_def native_to_bin_checksum256_def
      Abs_checksum256_inverse)

section \<open>The state suffix of an index key\<close>

lemma unat_not: "unat (NOT (w :: 'a::len word)) = 2 ^ LENGTH('a) - 1 - unat w"
proof -
  have "NOT w = - 1 - w" by (simp add: not_eq_complement)
  moreover have "w \<le> - 1" by simp
  ultimately have "unat (NOT w) = unat (- 1 :: 'a word) - unat w"
    by (simp add: unat_sub)
  then show ?thesis by (simp add: unsigned_minus_1_eq_mask mask_eq_exp_minus_1)
qed

lemma not_less_not: "(NOT n < NOT (m :: 'a::len word)) = (m < n)"
proof -
  show ?thesis
    using unsigned_less [of n, where 'a = nat] unsigned_less [of m, where 'a = nat]
    unfolding word_less_nat_alt unat_not by arith
qed

lemma bytewise_cmp_append:
  "length a = length b \<Longrightarrow>
   bytewise_cmp (a @ c) (b @ d) =
     (case bytewise_cmp a b of EQ \<Rightarrow> bytewise_cmp c d | LT \<Rightarrow> LT | GT \<Rightarrow> GT)"
  by (induction a b rule: list_induct2) simp_all

lemma bytewise_cmp_refl: "bytewise_cmp a a = EQ"
  by (induction a) simp_all

lemma state_suffix_eq:
  "append_table_index_state_suffix dest block present =
     dest @ native_to_bin_key [] (NOT block) @ [of_bool (\<not> present)]"
  by (cases present)
     (simp_all add: append_table_index_state_suffix_def native_to_bin_key_eq Let_def)

lemma length_key: "length (native_to_bin_key [] (w :: 'a::len word)) = LENGTH('a) div 8"
  by (simp add: native_to_bin_key_eq length_le_bytes)

text \<open>
  Claim C3. Behind one and the same prefix, the state suffix of block \<open>n\<close> sorts
  strictly before that of an older block \<open>m < n\<close>, whatever the two \<open>present\<close>
  flags; at one block, the suffix with \<open>present = true\<close> sorts strictly before the
  one with \<open>present = false\<close>.
\<close>

theorem state_suffix_order:
  "(m < n \<longrightarrow>
      bytewise_cmp (append_table_index_state_suffix dest n p)
                   (append_table_index_state_suffix dest m q) = LT) \<and>
   bytewise_cmp (append_table_index_state_suffix dest n True)
                (append_table_index_state_suffix dest n False) = LT"
proof (intro conjI impI)
  assume "m < n"
  then have "cmp (NOT n) (NOT m) = LT" by (simp add: cmp_def not_less_not)
  then have "bytewise_cmp (native_to_bin_key [] (NOT n)) (native_to_bin_key [] (NOT m)) = LT"
    using key_order [where a = "NOT n" and b = "NOT m" and bin = "[]"] by simp
  then show "bytewise_cmp (append_table_index_state_suffix dest n p)
                   (append_table_index_state_suffix dest m q) = LT"
    by (simp add: state_suffix_eq bytewise_cmp_prefix bytewise_cmp_append length_key)
next
  show "bytewise_cmp (append_table_index_state_suffix dest n True)
                (append_table_index_state_suffix dest n False) = LT"
    by (simp add: state_suffix_eq bytewise_cmp_prefix bytewise_cmp_append bytewise_cmp_refl)
qed

lemma le_bytes_numeral:
  "le_bytes (numeral k) v = of_nat (v mod 256) # le_bytes (pred_numeral k) (v div 256)"
proof -
  have "le_bytes (Suc (pred_numeral k)) v
      = of_nat (v mod 256) # le_bytes (pred_numeral k) (v div 256)"
    by (rule le_bytes.simps(2))
  then show ?thesis by (simp only: numeral_eq_Suc [symmetric])
qed

theorem state_suffix_order_witness:
  "(5 :: 32 word) < 8 \<and>
   bytewise_cmp (append_table_index_state_suffix [0x70] 8 False)
                (append_table_index_state_suffix [0x70] 5 True) = LT"
  using state_suffix_order [of 5 8 "[0x70]" False True] by simp

section \<open>The registry: which types encode as keys\<close>

lemma key_supported_simps:
  "key_supported T_bool" "key_supported T_uint8" "key_supported T_uint16"
  "key_supported T_uint32" "key_supported T_uint64" "key_supported T_uint128"
  "key_supported T_name" "key_supported T_checksum256"
  "\<not> key_supported T_varuint32" "\<not> key_supported T_int8" "\<not> key_supported T_int16"
  "\<not> key_supported T_int32" "\<not> key_supported T_int64" "\<not> key_supported T_int128"
  "\<not> key_supported T_double" "\<not> key_supported T_float128" "\<not> key_supported T_string"
  "\<not> key_supported T_time_point" "\<not> key_supported T_time_point_sec"
  "\<not> key_supported T_block_timestamp" "\<not> key_supported T_public_key"
  "\<not> key_supported T_bytes" "\<not> key_supported T_transaction_status"
  by (simp_all add: key_supported_def is_unsigned_def)

text \<open>
  Claim C5, as amended. For each of the three timestamp types, encoding a value
  as a key component fails with "unsupported key type", whatever the input, and
  leaves the destination as it was: \<open>fixup_key\<close> admits the unsigned integers,
  \<open>name\<close>, \<open>uint128\<close> and \<open>checksum256\<close> only. \<open>get_fixed_size\<close> is 8 for
  \<open>time_point\<close>, 4 for \<open>block_timestamp_type\<close> and 0 for \<open>time_point_sec\<close>.
\<close>

theorem timestamp_key_unsupported:
  "bin_to_bin_key lib T_time_point dest bin = Inl (UnsupportedKeyType, dest) \<and>
   bin_to_bin_key lib T_time_point_sec dest bin = Inl (UnsupportedKeyType, dest) \<and>
   bin_to_bin_key lib T_block_timestamp dest bin = Inl (UnsupportedKeyType, dest) \<and>
   query_to_bin_key lib T_time_point dest bin = Inl (UnsupportedKeyType, dest) \<and>
   query_to_bin_key lib T_time_point_sec dest bin = Inl (UnsupportedKeyType, dest) \<and>
   query_to_bin_key lib T_block_timestamp dest bin = Inl (UnsupportedKeyType, dest) \<and>
   get_fixed_size T_time_point = 8 \<and>
   get_fixed_size T_time_point_sec = 0 \<and>
   get_fixed_size T_block_timestamp = 4"
  by (simp add: bin_to_bin_key_def query_to_bin_key_def fixup_key_def key_supported_simps
      get_fixed_size_def is_integral_def)

text \<open>
  Claim C5, as stated, fails: the key encoding of the eight bytes of a
  \<open>time_point\<close> throws.
\<close>

theorem timestamp_key_counterexample:
  "bin_to_bin_key example_lib T_time_point [] [1, 0, 0, 0, 0, 0, 0, 0] =
     Inl (UnsupportedKeyType, [])"
  by (simp add: bin_to_bin_key_def fixup_key_def key_supported_simps)

lemma copy_raw_exact: "length v = n \<Longrightarrow> copy_raw n dest (v @ rest) = Inr (dest @ v, rest)"
  by (simp add: copy_raw_def)

lemma bin_to_bin_supported:
  assumes "key_supported T" "length v = sizeof T"
  shows "bin_to_bin lib T dest (v @ rest) = Inr (dest @ v, rest)"
proof (cases "T = T_uint128")
  case True
  with assms have l: "length v = 16" by simp
  have "take 8 v @ drop 8 v = v" by simp
  with l True show ?thesis by (simp add: bin_to_bin_def copy_raw_def)
next
  case False
  with assms have "raw_size T = Some (sizeof T)" "T \<noteq> T_int128" "T \<noteq> T_transaction_status"
    by (cases T; simp add: key_supported_simps)+
  with False assms show ?thesis by (simp add: bin_to_bin_def copy_raw_exact)
qed

lemma reverse_from_append: "reverse_from (length dest) (dest @ v) = dest @ rev v"
  by (simp add: reverse_from_def)

lemma query_to_bin_key_supported:
  assumes "key_supported T" "length v = sizeof T"
  shows "query_to_bin_key lib T dest (v @ rest) = Inr (dest @ rev v, rest)"
proof -
  from assms have "T \<noteq> T_varuint32" by (auto simp: key_supported_simps)
  then show ?thesis
    using assms
    by (simp add: query_to_bin_key_def fixup_key_def reverse_bin_def bin_to_bin_supported
        reverse_from_append)
qed

lemma bin_to_bin_key_supported:
  assumes "key_supported T" "length v = sizeof T"
  shows "bin_to_bin_key lib T dest (v @ rest) = Inr (dest @ rev v, rest)"
proof -
  from assms have "T \<noteq> T_varuint32" by (auto simp: key_supported_simps)
  then show ?thesis
    using assms
    by (simp add: bin_to_bin_key_def fixup_key_def reverse_bin_def bin_to_bin_supported
        reverse_from_append)
qed

section \<open>What the converters read and write\<close>

text \<open>
  \<open>bin_to_bin<T>\<close> at a type of fixed width \<open>n\<close>: with \<open>n\<close> bytes left it appends
  them and advances; with fewer it throws, and the destination is as it was,
  except for the 128-bit integers, whose first half is already appended when at
  least 8 bytes were left.
\<close>

lemma bin_to_bin_cases:
  assumes "raw_size T = Some n"
  shows "bin_to_bin lib T dest bin =
           (if n \<le> length bin then Inr (dest @ take n bin, drop n bin)
            else Inl (DeserializeError,
                      if (T = T_uint128 \<or> T = T_int128) \<and> 8 \<le> length bin
                      then dest @ take 8 bin else dest))"
proof (cases "T = T_uint128 \<or> T = T_int128")
  case True
  with assms have n: "n = 16" by auto
  have "take 8 bin @ take 8 (drop 8 bin) = take 16 bin"
    using take_add [of 8 8 bin] by simp
  with True n show ?thesis
    by (auto simp: bin_to_bin_def copy_raw_def)
next
  case False
  with assms show ?thesis
    by (cases bin) (auto simp: bin_to_bin_def copy_raw_def)
qed

lemma raw_size_supported: "key_supported T \<Longrightarrow> raw_size T = Some (sizeof T)"
  by (cases T) (simp_all add: key_supported_simps)

lemma query_to_bin_key_cases:
  "query_to_bin_key lib T dest bin =
     (if \<not> query_arg_type T then Inl (UnsupportedKeyType, dest)
      else if query_arg_size T \<le> length bin
      then Inr (dest @ rev (take (query_arg_size T) bin), drop (query_arg_size T) bin)
      else Inl (DeserializeError,
                if T = T_uint128 \<and> 8 \<le> length bin then dest @ take 8 bin else dest))"
proof (cases "T = T_varuint32")
  case True
  have r: "raw_size T_uint32 = Some 4" by simp
  show ?thesis
    using True
    by (simp add: query_to_bin_key_def fixup_key_def key_supported_simps reverse_bin_def
        bin_to_bin_cases [OF r] query_arg_type_def query_arg_size_def reverse_from_def)
next
  case False
  show ?thesis
  proof (cases "key_supported T")
    case k: True
    have i: "T \<noteq> T_int128" using k by (auto simp: key_supported_simps)
    show ?thesis
      using False k i
      by (simp add: query_to_bin_key_def fixup_key_def reverse_bin_def
          bin_to_bin_cases [OF raw_size_supported [OF k]] query_arg_type_def query_arg_size_def
          reverse_from_def)
  next
    case k: False
    with False show ?thesis
      by (simp add: query_to_bin_key_def fixup_key_def query_arg_type_def)
  qed
qed

section \<open>The index bounds of a query\<close>

text \<open>
  One pass of \<open>add_fields\<close> succeeds exactly when every type is one that
  \<open>query_to_bin_key\<close> accepts and the buffer starts with one value of the right
  width per type, in the order of the types; the pass appends the values
  byte-reversed and leaves the bytes behind them.
\<close>

lemma add_fields_iff:
  "(add_fields lib dest types bin = Inr (dest', bin')) =
   ((\<forall>T\<in>set types. query_arg_type T) \<and>
    (\<exists>vs. map length vs = map query_arg_size types \<and>
          bin = concat vs @ bin' \<and> dest' = dest @ concat (map rev vs)))"
proof (induction types arbitrary: dest bin)
  case Nil
  show ?case by auto
next
  case (Cons T types)
  let ?n = "query_arg_size T"
  show ?case
  proof (cases "query_arg_type T \<and> ?n \<le> length bin")
    case False
    have l: "add_fields lib dest (T # types) bin \<noteq> Inr (dest', bin')"
      using False by (auto simp: query_to_bin_key_cases)
    have r: "\<not> ((\<forall>T\<in>set (T # types). query_arg_type T) \<and>
              (\<exists>vs. map length vs = map query_arg_size (T # types) \<and>
                    bin = concat vs @ bin' \<and> dest' = dest @ concat (map rev vs)))"
    proof
      assume a: "(\<forall>T\<in>set (T # types). query_arg_type T) \<and>
              (\<exists>vs. map length vs = map query_arg_size (T # types) \<and>
                    bin = concat vs @ bin' \<and> dest' = dest @ concat (map rev vs))"
      then have ok: "query_arg_type T" by simp
      from a obtain vs where vs: "map length vs = map query_arg_size (T # types)"
        "bin = concat vs @ bin'" by blast
      then obtain v vs' where "vs = v # vs'" by (cases vs) auto
      with vs have "length v = ?n" "bin = v @ concat vs' @ bin'" by simp_all
      then have "?n \<le> length bin" by simp
      with ok False show False by simp
    qed
    from l r show ?thesis by blast
  next
    case True
    then have step: "query_to_bin_key lib T dest bin = Inr (dest @ rev (take ?n bin), drop ?n bin)"
      by (simp add: query_to_bin_key_cases)
    have ih: "(add_fields lib (dest @ rev (take ?n bin)) types (drop ?n bin) = Inr (dest', bin')) =
      ((\<forall>T\<in>set types. query_arg_type T) \<and>
       (\<exists>vs. map length vs = map query_arg_size types \<and>
          drop ?n bin = concat vs @ bin' \<and>
          dest' = (dest @ rev (take ?n bin)) @ concat (map rev vs)))"
      by (rule Cons.IH)
    have "(\<exists>vs. map length vs = map query_arg_size (T # types) \<and>
              bin = concat vs @ bin' \<and> dest' = dest @ concat (map rev vs)) =
          (\<exists>vs. map length vs = map query_arg_size types \<and>
              drop ?n bin = concat vs @ bin' \<and>
              dest' = (dest @ rev (take ?n bin)) @ concat (map rev vs))"
    proof
      assume "\<exists>vs. map length vs = map query_arg_size (T # types) \<and>
              bin = concat vs @ bin' \<and> dest' = dest @ concat (map rev vs)"
      then obtain vs where vs: "map length vs = map query_arg_size (T # types)"
        "bin = concat vs @ bin'" "dest' = dest @ concat (map rev vs)" by blast
      then obtain v vs' where c: "vs = v # vs'" by (cases vs) auto
      with vs have v: "length v = ?n" "map length vs' = map query_arg_size types"
        "bin = v @ concat vs' @ bin'" "dest' = dest @ rev v @ concat (map rev vs')"
        by simp_all
      from v(1,3) have "take ?n bin = v" "drop ?n bin = concat vs' @ bin'" by simp_all
      with v show "\<exists>vs. map length vs = map query_arg_size types \<and>
              drop ?n bin = concat vs @ bin' \<and>
              dest' = (dest @ rev (take ?n bin)) @ concat (map rev vs)"
        by auto
    next
      assume "\<exists>vs. map length vs = map query_arg_size types \<and>
              drop ?n bin = concat vs @ bin' \<and>
              dest' = (dest @ rev (take ?n bin)) @ concat (map rev vs)"
      then obtain vs where vs: "map length vs = map query_arg_size types"
        "drop ?n bin = concat vs @ bin'"
        "dest' = (dest @ rev (take ?n bin)) @ concat (map rev vs)" by blast
      have "bin = take ?n bin @ drop ?n bin" by simp
      with vs(2) have b: "bin = concat (take ?n bin # vs) @ bin'" by simp
      have l: "map length (take ?n bin # vs) = map query_arg_size (T # types)"
        using vs(1) True by simp
      have d: "dest' = dest @ concat (map rev (take ?n bin # vs))"
        using vs(3) by simp
      from l b d show "\<exists>vs. map length vs = map query_arg_size (T # types) \<and>
              bin = concat vs @ bin' \<and> dest' = dest @ concat (map rev vs)"
        by blast
    qed
    with ih step True show ?thesis by simp
  qed
qed

text \<open>
  Claim C2, as amended. For every query, \<open>query_database\<close> consumes the range
  arguments in two passes: one value per range type, in declared order, for the
  lower bound, then one value per range type, in declared order, for the upper
  bound. The bounds are built exactly when every range type is one that
  \<open>query_to_bin_key\<close> accepts (a key type, or \<open>varuint32\<close> read as 4 raw bytes) and
  the buffer holds all lower bounds followed by all upper bounds, each of the
  width of its type; each bound is then the index prefix followed by its values,
  byte-reversed, and the buffer that is left starts behind the upper bounds.
\<close>

theorem query_bounds_lower_then_upper:
  "(query_bounds lib query query_name query_bin = Inr (first_key, last_key, rest)) =
   ((\<forall>T\<in>set (range_types query). query_arg_type T) \<and>
    (\<exists>lowers uppers.
       map length lowers = map query_arg_size (range_types query) \<and>
       map length uppers = map query_arg_size (range_types query) \<and>
       query_bin = concat lowers @ concat uppers @ rest \<and>
       first_key = make_table_index_key (short_name (table_obj query)) query_name
                     @ concat (map rev lowers) \<and>
       last_key = make_table_index_key (short_name (table_obj query)) query_name
                     @ concat (map rev uppers)))"
proof -
  let ?p = "make_table_index_key (short_name (table_obj query)) query_name"
  let ?ts = "range_types query"
  have "(query_bounds lib query query_name query_bin = Inr (first_key, last_key, rest)) =
        (\<exists>bin1. add_fields lib ?p ?ts query_bin = Inr (first_key, bin1) \<and>
                add_fields lib ?p ?ts bin1 = Inr (last_key, rest))"
    by (auto simp: query_bounds_def Let_def split: sum.splits)
  also have "\<dots> =
        ((\<forall>T\<in>set ?ts. query_arg_type T) \<and>
         (\<exists>lowers uppers.
            map length lowers = map query_arg_size ?ts \<and>
            map length uppers = map query_arg_size ?ts \<and>
            query_bin = concat lowers @ concat uppers @ rest \<and>
            first_key = ?p @ concat (map rev lowers) \<and>
            last_key = ?p @ concat (map rev uppers)))"
    unfolding add_fields_iff by blast
  finally show ?thesis .
qed

lemma make_table_index_key_example:
  "make_table_index_key 1 2 = [0x70, 0, 0, 0, 0, 0, 0, 0, 1, 0, 0, 0, 0, 0, 0, 0, 2]"
  by (simp add: make_table_index_key_def append_table_index_key_def native_to_bin_key_eq
      le_bytes_numeral)

theorem query_bounds_lower_then_upper_witness:
  "range_types example_query = [T_uint8, T_uint8] \<and>
   query_arg_type T_uint8 \<and> query_arg_size T_uint8 = 1 \<and>
   query_bounds example_lib example_query 2 [1, 2, 3, 4] =
     Inr ([0x70, 0, 0, 0, 0, 0, 0, 0, 1, 0, 0, 0, 0, 0, 0, 0, 2, 1, 2],
          [0x70, 0, 0, 0, 0, 0, 0, 0, 1, 0, 0, 0, 0, 0, 0, 0, 2, 3, 4], []) \<and>
   query_arg_type T_varuint32 \<and> query_arg_size T_varuint32 = 4 \<and>
   query_bounds example_lib (example_query\<lparr>range_types := [T_varuint32]\<rparr>) 2
       [1, 2, 3, 4, 5, 6, 7, 8] =
     Inr ([0x70, 0, 0, 0, 0, 0, 0, 0, 1, 0, 0, 0, 0, 0, 0, 0, 2, 4, 3, 2, 1],
          [0x70, 0, 0, 0, 0, 0, 0, 0, 1, 0, 0, 0, 0, 0, 0, 0, 2, 8, 7, 6, 5], [])"
proof -
  let ?k = "[0x70, 0, 0, 0, 0, 0, 0, 0, 1, 0, 0, 0, 0, 0, 0, 0, 2] :: bytes"
  have t: "query_arg_type T_uint8" "query_arg_size T_uint8 = 1"
    "query_arg_type T_varuint32" "query_arg_size T_varuint32 = 4"
    by (simp_all add: query_arg_type_def query_arg_size_def key_supported_simps)
  have q: "range_types example_query = [T_uint8, T_uint8]"
    "make_table_index_key (short_name (table_obj example_query)) 2 = ?k"
    by (simp_all add: example_query_def example_table_def make_table_index_key_example)
  have "\<exists>lowers uppers.
       map length lowers = map query_arg_size (range_types example_query) \<and>
       map length uppers = map query_arg_size (range_types example_query) \<and>
       [1, 2, 3, 4] = concat lowers @ concat uppers @ [] \<and>
       ?k @ [1, 2] = make_table_index_key (short_name (table_obj example_query)) 2
                     @ concat (map rev lowers) \<and>
       ?k @ [3, 4] = make_table_index_key (short_name (table_obj example_query)) 2
                     @ concat (map rev uppers)"
    by (rule exI [of _ "[[1], [2]]"], rule exI [of _ "[[3], [4]]"]) (simp add: q t)
  then have b1: "query_bounds example_lib example_query 2 [1, 2, 3, 4] =
      Inr (?k @ [1, 2], ?k @ [3, 4], [])"
    using query_bounds_lower_then_upper
      [of example_lib example_query 2 "[1, 2, 3, 4]" "?k @ [1, 2]" "?k @ [3, 4]" "[]"]
    by (simp add: q t)
  let ?v = "example_query\<lparr>range_types := [T_varuint32]\<rparr>"
  have qv: "range_types ?v = [T_varuint32]"
    "make_table_index_key (short_name (table_obj ?v)) 2 = ?k"
    by (simp_all add: example_query_def example_table_def make_table_index_key_example)
  have "\<exists>lowers uppers.
       map length lowers = map query_arg_size (range_types ?v) \<and>
       map length uppers = map query_arg_size (range_types ?v) \<and>
       [1, 2, 3, 4, 5, 6, 7, 8] = concat lowers @ concat uppers @ [] \<and>
       ?k @ [4, 3, 2, 1] = make_table_index_key (short_name (table_obj ?v)) 2
                     @ concat (map rev lowers) \<and>
       ?k @ [8, 7, 6, 5] = make_table_index_key (short_name (table_obj ?v)) 2
                     @ concat (map rev uppers)"
    by (rule exI [of _ "[[1, 2, 3, 4]]"], rule exI [of _ "[[5, 6, 7, 8]]"]) (simp add: qv q t)
  then have b2: "query_bounds example_lib ?v 2 [1, 2, 3, 4, 5, 6, 7, 8] =
      Inr (?k @ [4, 3, 2, 1], ?k @ [8, 7, 6, 5], [])"
    using query_bounds_lower_then_upper
      [of example_lib ?v 2 "[1, 2, 3, 4, 5, 6, 7, 8]" "?k @ [4, 3, 2, 1]" "?k @ [8, 7, 6, 5]" "[]"]
    by (simp add: qv q t)
  show ?thesis using b1 b2 q(1) t by simp
qed

lemma query_to_bin_key_uint8:
  "query_to_bin_key lib T_uint8 dest (b # rest) = Inr (dest @ [b], rest)"
  using query_to_bin_key_supported [of T_uint8 "[b]" lib dest rest]
  by (simp add: key_supported_simps)

text \<open>
  Claim C2, as stated, fails: with two range types the bounds that the source
  builds from the bytes 1, 2, 3, 4 are not the ones of the interleaved reading.
\<close>

theorem query_bounds_interleaved_counterexample:
  "query_bounds example_lib example_query 2 [1, 2, 3, 4] \<noteq>
   spec_query_bounds example_lib example_query 2 [1, 2, 3, 4]"
  by (simp add: query_bounds_def spec_query_bounds_def example_query_def
      query_to_bin_key_uint8 Let_def)

section \<open>Field extraction\<close>

lemma copy_raw_error: "copy_raw n dest bin = Inl (e, d) \<Longrightarrow> e = DeserializeError"
  by (simp add: copy_raw_def split: if_splits)

lemma bin_to_bin_error: "bin_to_bin lib T dest bin = Inl (e, d) \<Longrightarrow> e = DeserializeError"
  by (auto simp: bin_to_bin_def dest: copy_raw_error
      split: if_splits sum.splits option.splits prod.splits)

lemma reverse_bin_error: "reverse_bin dest f = Inl (e, d) \<Longrightarrow> f dest = Inl (e, d)"
  by (simp add: reverse_bin_def Let_def split: sum.splits prod.splits)

lemma fixup_key_error:
  "fixup_key T dest f = Inl (e, d) \<Longrightarrow> e = UnsupportedKeyType \<or> f dest = Inl (e, d)"
  by (auto simp: fixup_key_def dest: reverse_bin_error split: if_splits)

lemma bin_to_bin_key_error:
  "bin_to_bin_key lib T dest bin = Inl (e, d) \<Longrightarrow> e = UnsupportedKeyType \<or> e = DeserializeError"
proof (cases "T = T_varuint32")
  case True
  assume "bin_to_bin_key lib T dest bin = Inl (e, d)"
  with True have "(case read_varuint32 lib bin of
            None \<Rightarrow> Inl (DeserializeError, dest)
          | Some (v, bin') \<Rightarrow> Inr (native_to_bin dest v, bin')) = Inl (e, d)"
    by (auto simp: bin_to_bin_key_def dest: reverse_bin_error)
  then show ?thesis by (simp split: option.splits prod.splits)
next
  case False
  assume "bin_to_bin_key lib T dest bin = Inl (e, d)"
  with False show ?thesis
    by (auto simp: bin_to_bin_key_def dest!: fixup_key_error bin_to_bin_error)
qed

lemma append_fields_append:
  "append_fields lib dest src (ks1 @ ks2) x =
     (case append_fields lib dest src ks1 x of
        Inl e \<Rightarrow> Inl e
      | Inr dest' \<Rightarrow> append_fields lib dest' src ks2 x)"
proof (induction ks1 arbitrary: dest)
  case Nil
  show ?case by simp
next
  case (Cons k ks1)
  show ?case
    using Cons.IH
    by (cases x) (simp_all add: Let_def split: option.split sum.split prod.split)
qed

lemma append_fields_single_unknown:
  "(\<exists>n d. append_fields lib dest src [key] x = Inl (FieldPositionUnknown n, d)) =
   (byte_position (key_field key) = None)"
  by (auto simp: Let_def split: option.splits sum.splits prod.splits if_splits
      dest: bin_to_bin_error bin_to_bin_key_error)

lemma append_fields_single_range:
  "(\<exists>d. append_fields lib dest src [key] x = Inl (KeyPositionOutOfRange, d)) =
   (\<exists>p. byte_position (key_field key) = Some p \<and> length src < unat p)"
  by (auto simp: Let_def split: option.splits sum.splits prod.splits if_splits
      dest: bin_to_bin_error bin_to_bin_key_error)

lemma append_fields_single_dest:
  "append_fields lib dest src [key] x = Inl (e, d) \<Longrightarrow>
   e = KeyPositionOutOfRange \<or> (\<exists>n. e = FieldPositionUnknown n) \<Longrightarrow> d = dest"
  by (auto simp: Let_def split: option.splits sum.splits prod.splits if_splits
      dest: bin_to_bin_error bin_to_bin_key_error)

lemma bin_to_bin_failure:
  "bin_to_bin lib T dest bin = Inl (e, d) \<Longrightarrow>
   e = DeserializeError \<and>
   (d = dest \<or> ((T = T_uint128 \<or> T = T_int128) \<and> d = dest @ take 8 bin))"
proof (cases "raw_size T")
  case None
  assume "bin_to_bin lib T dest bin = Inl (e, d)"
  with None show ?thesis
    by (cases T) (auto simp: bin_to_bin_def split: option.splits prod.splits)
next
  case (Some n)
  assume "bin_to_bin lib T dest bin = Inl (e, d)"
  then show ?thesis
    unfolding bin_to_bin_cases [OF Some] by (auto split: if_splits)
qed

lemma bin_to_bin_key_failure:
  "bin_to_bin_key lib T dest bin = Inl (e, d) \<Longrightarrow>
   (e = UnsupportedKeyType \<and> d = dest) \<or>
   (e = DeserializeError \<and> (d = dest \<or> (T = T_uint128 \<and> d = dest @ take 8 bin)))"
proof (cases "T = T_varuint32")
  case True
  assume "bin_to_bin_key lib T dest bin = Inl (e, d)"
  with True have "(case read_varuint32 lib bin of
            None \<Rightarrow> Inl (DeserializeError, dest)
          | Some (v, bin') \<Rightarrow> Inr (native_to_bin dest v, bin')) = Inl (e, d)"
    by (auto simp: bin_to_bin_key_def dest: reverse_bin_error)
  then show ?thesis by (simp split: option.splits prod.splits)
next
  case False
  assume a: "bin_to_bin_key lib T dest bin = Inl (e, d)"
  show ?thesis
  proof (cases "key_supported T")
    case k: True
    then have "T \<noteq> T_int128" by (auto simp: key_supported_simps)
    moreover from a False k have "bin_to_bin lib T dest bin = Inl (e, d)"
      by (auto simp: bin_to_bin_key_def fixup_key_def dest: reverse_bin_error)
    ultimately show ?thesis using bin_to_bin_failure [of lib T dest bin e d] by auto
  next
    case k: False
    with a False show ?thesis by (simp add: bin_to_bin_key_def fixup_key_def)
  qed
qed

lemma append_fields_single_failure:
  "append_fields lib dest src [key] x = Inl (e, d) \<Longrightarrow>
   d = dest \<or>
   (e = DeserializeError \<and>
    (type_obj (key_field key) = Some T_uint128 \<or> type_obj (key_field key) = Some T_int128) \<and>
    (\<exists>p. byte_position (key_field key) = Some p \<and> d = dest @ take 8 (drop (unat p) src)))"
proof (cases "byte_position (key_field key)")
  case None
  assume "append_fields lib dest src [key] x = Inl (e, d)"
  with None show ?thesis by simp
next
  case (Some p)
  assume a: "append_fields lib dest src [key] x = Inl (e, d)"
  show ?thesis
  proof (cases "length src < unat p")
    case True
    with a Some show ?thesis by simp
  next
    case False
    show ?thesis
    proof (cases "type_obj (key_field key)")
      case None
      with a Some False show ?thesis by simp
    next
      case T: (Some T)
      show ?thesis
      proof (cases x)
        case True
        with a Some False T have "bin_to_bin_key lib T dest (drop (unat p) src) = Inl (e, d)"
          by (simp add: Let_def split: sum.splits prod.splits)
        from bin_to_bin_key_failure [OF this] Some T show ?thesis by auto
      next
        case x: False
        with a Some False T have "bin_to_bin lib T dest (drop (unat p) src) = Inl (e, d)"
          by (simp add: Let_def split: sum.splits prod.splits)
        from bin_to_bin_failure [OF this] Some T show ?thesis by auto
      qed
    qed
  qed
qed

text \<open>
  Claim C9, as amended. Let the fields before \<open>key\<close> be extracted without error,
  leaving the destination \<open>dest\<close>. Then \<open>append_fields\<close> fails at \<open>key\<close> with the
  unknown-position error exactly when the field's \<open>byte_position\<close> is unset, and
  with the out-of-range error exactly when the position is set and strictly
  greater than the length of the payload; in these two failures the destination
  is still \<open>dest\<close> when the exception leaves: no byte was appended for that field.
  Every other failure at \<open>key\<close> leaves the destination at \<open>dest\<close> as well, but for
  one: a 128-bit integer field whose converter fails on a truncated payload after
  it has appended the first 8 bytes.
\<close>

theorem append_fields_position_errors:
  assumes "append_fields lib dest0 src keys xform_key = Inr dest"
  shows "((\<exists>n d. append_fields lib dest0 src (keys @ [key]) xform_key
                    = Inl (FieldPositionUnknown n, d))
            = (byte_position (key_field key) = None)) \<and>
         ((\<exists>d. append_fields lib dest0 src (keys @ [key]) xform_key
                    = Inl (KeyPositionOutOfRange, d))
            = (\<exists>p. byte_position (key_field key) = Some p \<and> length src < unat p)) \<and>
         (\<forall>e d. append_fields lib dest0 src (keys @ [key]) xform_key = Inl (e, d) \<longrightarrow>
                  e = KeyPositionOutOfRange \<or> (\<exists>n. e = FieldPositionUnknown n) \<longrightarrow> d = dest) \<and>
         (\<forall>e d. append_fields lib dest0 src (keys @ [key]) xform_key = Inl (e, d) \<longrightarrow>
                  d = dest \<or>
                  (e = DeserializeError \<and>
                   (type_obj (key_field key) = Some T_uint128 \<or>
                    type_obj (key_field key) = Some T_int128) \<and>
                   (\<exists>p. byte_position (key_field key) = Some p \<and>
                        d = dest @ take 8 (drop (unat p) src))))"
proof -
  have eq: "append_fields lib dest0 src (keys @ [key]) xform_key =
            append_fields lib dest src [key] xform_key"
    using assms by (simp add: append_fields_append)
  have a: "(\<exists>n d. append_fields lib dest src [key] xform_key = Inl (FieldPositionUnknown n, d))
            = (byte_position (key_field key) = None)"
    by (rule append_fields_single_unknown)
  have b: "(\<exists>d. append_fields lib dest src [key] xform_key = Inl (KeyPositionOutOfRange, d))
            = (\<exists>p. byte_position (key_field key) = Some p \<and> length src < unat p)"
    by (rule append_fields_single_range)
  have c: "\<forall>e d. append_fields lib dest src [key] xform_key = Inl (e, d) \<longrightarrow>
                  e = KeyPositionOutOfRange \<or> (\<exists>n. e = FieldPositionUnknown n) \<longrightarrow> d = dest"
    using append_fields_single_dest [of lib dest src key xform_key] by blast
  have d: "\<forall>e d. append_fields lib dest src [key] xform_key = Inl (e, d) \<longrightarrow>
                  d = dest \<or>
                  (e = DeserializeError \<and>
                   (type_obj (key_field key) = Some T_uint128 \<or>
                    type_obj (key_field key) = Some T_int128) \<and>
                   (\<exists>p. byte_position (key_field key) = Some p \<and>
                        d = dest @ take 8 (drop (unat p) src)))"
    using append_fields_single_failure [of lib dest src key xform_key] by blast
  show ?thesis unfolding eq using a b c d by (intro conjI)
qed

text \<open>
  Claim C9, as stated, fails in its last clause: a 128-bit field at offset 0 of a
  payload of 12 bytes fails in the converter, and the first 8 bytes of the payload
  are appended to the destination when the exception leaves.
\<close>

theorem append_fields_partial_write_counterexample:
  "append_fields example_lib [0xAA] [1, 2, 3, 4, 5, 6, 7, 8, 9, 10, 11, 12] [example_key128] False
     = Inl (DeserializeError, [0xAA, 1, 2, 3, 4, 5, 6, 7, 8])"
  by (simp add: example_key128_def bin_to_bin_def copy_raw_def)

lemma append_fields_example16:
  "append_fields example_lib [] [7, 0, 1, 2, 3, 4] [example_key16] False = Inr [7, 0]"
  by (simp add: example_key16_def bin_to_bin_def copy_raw_def)

theorem append_fields_position_errors_witness:
  "append_fields example_lib [] [7, 0, 1, 2, 3, 4] [example_key16] False = Inr [7, 0] \<and>
   byte_position (key_field example_key_unset) = None \<and>
   append_fields example_lib [] [7, 0, 1, 2, 3, 4] ([example_key16] @ [example_key_unset]) False
     = Inl (FieldPositionUnknown ''late'', [7, 0]) \<and>
   append_fields example_lib [5] [7] [] True = Inr [5] \<and>
   byte_position (key_field example_key32) = Some 2 \<and>
   length [7 :: byte] < unat (2 :: 32 word) \<and>
   append_fields example_lib [5] [7] ([] @ [example_key32]) True
     = Inl (KeyPositionOutOfRange, [5])"
  using append_fields_position_errors
      [of example_lib "[]" "[7, 0, 1, 2, 3, 4]" "[example_key16]" False "[7, 0]" example_key_unset]
    append_fields_position_errors
      [of example_lib "[5]" "[7]" "[]" True "[5]" example_key32]
  by (simp add: append_fields_example16 example_key16_def example_key32_def
      example_key_unset_def bin_to_bin_def copy_raw_def)

section \<open>The byte positions that \<open>prepare\<close> computes\<close>

lemma prepare_fields_shape:
  "prepare_fields pos fs = Inr fs' \<Longrightarrow>
   length fs' = length fs \<and> map type_obj fs' = map type_obj fs"
proof (induction fs arbitrary: pos fs')
  case Nil
  then show ?case by simp
next
  case (Cons f fs)
  then show ?case
    by (auto simp: Let_def split: option.splits sum.splits if_splits)
qed

lemma prepare_fields_positions:
  assumes "prepare_fields pos fs = Inr fs'"
    and "\<forall>f\<in>set fs. byte_position f = None"
    and "i < length fs"
  shows "byte_position (fs' ! i) =
           (if \<forall>j<i. field_fixed_size (fs ! j) \<noteq> 0
            then Some (pos + sum_list (map field_fixed_size (take i fs))) else None)"
  using assms
proof (induction fs arbitrary: pos fs' i)
  case Nil
  then show ?case by simp
next
  case (Cons f fs)
  from Cons.prems(1) obtain T where T: "type_obj f = Some T"
    by (auto split: option.splits)
  have sz: "field_fixed_size f = get_fixed_size T"
    using T by (simp add: field_fixed_size_def)
  show ?case
  proof (cases i)
    case 0
    with Cons.prems(1) T show ?thesis
      by (auto simp: Let_def split: sum.splits if_splits)
  next
    case (Suc k)
    with Cons.prems(3) have k: "k < length fs" by simp
    show ?thesis
    proof (cases "get_fixed_size T = 0")
      case True
      with Cons.prems(1) T have "fs' = f\<lparr>byte_position := Some pos\<rparr> # fs"
        by (simp add: Let_def)
      moreover have "byte_position (fs ! k) = None"
        using Cons.prems(2) k by simp
      moreover have "\<not> (\<forall>j<i. field_fixed_size ((f # fs) ! j) \<noteq> 0)"
        using True sz Suc by auto
      ultimately show ?thesis using Suc by simp
    next
      case False
      with Cons.prems(1) T obtain rest' where
        r: "prepare_fields (pos + get_fixed_size T) fs = Inr rest'"
        and fs': "fs' = f\<lparr>byte_position := Some pos\<rparr> # rest'"
        by (auto simp: Let_def split: sum.splits)
      have ih: "byte_position (rest' ! k) =
           (if \<forall>j<k. field_fixed_size (fs ! j) \<noteq> 0
            then Some (pos + get_fixed_size T + sum_list (map field_fixed_size (take k fs)))
            else None)"
        using Cons.IH [OF r _ k] Cons.prems(2) by simp
      have all: "(\<forall>j<i. field_fixed_size ((f # fs) ! j) \<noteq> 0) =
                 (\<forall>j<k. field_fixed_size (fs ! j) \<noteq> 0)"
      proof
        assume a: "\<forall>j<i. field_fixed_size ((f # fs) ! j) \<noteq> 0"
        show "\<forall>j<k. field_fixed_size (fs ! j) \<noteq> 0"
        proof (intro allI impI)
          fix j assume "j < k"
          then have "Suc j < i" using Suc by simp
          with a have "field_fixed_size ((f # fs) ! Suc j) \<noteq> 0" by blast
          then show "field_fixed_size (fs ! j) \<noteq> 0" by simp
        qed
      next
        assume a: "\<forall>j<k. field_fixed_size (fs ! j) \<noteq> 0"
        show "\<forall>j<i. field_fixed_size ((f # fs) ! j) \<noteq> 0"
        proof (intro allI impI)
          fix j assume j: "j < i"
          show "field_fixed_size ((f # fs) ! j) \<noteq> 0"
          proof (cases j)
            case 0
            then show ?thesis using False sz by simp
          next
            case (Suc j')
            with j \<open>i = Suc k\<close> have "j' < k" by simp
            with a Suc show ?thesis by simp
          qed
        qed
      qed
      show ?thesis
        unfolding all using ih fs' Suc sz by (simp add: add.assoc)
    qed
  qed
qed

lemma resolve_fields_none:
  "resolve_fields type_map fs = Inr fs' \<Longrightarrow> \<forall>f\<in>set fs. byte_position f = None \<Longrightarrow>
   \<forall>f\<in>set fs'. byte_position f = None"
  by (induction fs arbitrary: fs') (auto split: option.splits sum.splits)

lemma resolve_tables_none:
  "resolve_tables type_map tabs = Inr tabs' \<Longrightarrow>
   \<forall>tab\<in>set tabs. \<forall>f\<in>set (table_fields tab). byte_position f = None \<Longrightarrow>
   \<forall>tab\<in>set tabs'. \<forall>f\<in>set (table_fields tab). byte_position f = None"
proof (induction tabs arbitrary: tabs')
  case Nil
  then show ?case by simp
next
  case (Cons tab tabs)
  from Cons.prems(1) obtain fs rest where
    fs: "resolve_fields type_map (table_fields tab) = Inr fs"
    and rest: "resolve_tables type_map tabs = Inr rest"
    and tabs': "tabs' = tab\<lparr>table_fields := fs\<rparr> # rest"
    by (auto split: sum.splits)
  have "\<forall>f\<in>set fs. byte_position f = None"
    using resolve_fields_none [OF fs] Cons.prems(2) by simp
  moreover have "\<forall>tab\<in>set rest. \<forall>f\<in>set (table_fields tab). byte_position f = None"
    using Cons.IH [OF rest] Cons.prems(2) by simp
  ultimately show ?case using tabs' by simp
qed

lemma prepare_tables_fields:
  "prepare_tables lib tabs = Inr tabs' \<Longrightarrow> tab' \<in> set tabs' \<Longrightarrow>
   \<exists>tab\<in>set tabs. prepare_fields 0 (table_fields tab) = Inr (table_fields tab')"
proof (induction tabs arbitrary: tabs')
  case Nil
  then show ?case by simp
next
  case (Cons tab tabs)
  from Cons.prems(1) obtain n fs rest where
    fs: "prepare_fields 0 (table_fields tab) = Inr fs"
    and rest: "prepare_tables lib tabs = Inr rest"
    and tabs': "tabs' = tab\<lparr>short_name := n, table_fields := fs\<rparr> # rest"
    by (auto split: option.splits sum.splits)
  show ?case
  proof (cases "tab' \<in> set rest")
    case True
    then show ?thesis using Cons.IH [OF rest] by auto
  next
    case False
    with Cons.prems(2) tabs' have "table_fields tab' = fs" by auto
    with fs show ?thesis by simp
  qed
qed

text \<open>
  Claim C10. After a successful \<open>prepare\<close> of a configuration whose fields had no
  position yet, every field of every table has its \<open>byte_position\<close> set exactly
  when all fields before it have a nonzero fixed size, and the position is then
  the sum (in the 32-bit arithmetic of \<open>pos\<close>) of the fixed sizes of the fields
  before it. So the first field of fixed size 0 still gets a position, and only
  the fields behind it are left unset.
\<close>

theorem prepare_byte_positions:
  assumes "prepare lib type_map c = Inr c'"
    and "\<forall>tab\<in>set (tables c). \<forall>f\<in>set (table_fields tab). byte_position f = None"
    and "tab' \<in> set (tables c')"
    and "i < length (table_fields tab')"
  shows "byte_position (table_fields tab' ! i) =
           (if \<forall>j<i. field_fixed_size (table_fields tab' ! j) \<noteq> 0
            then Some (sum_list (map field_fixed_size (take i (table_fields tab'))))
            else None)"
proof -
  from assms(1) obtain tabs1 tabs2 where
    t1: "resolve_tables type_map (tables c) = Inr tabs1"
    and t2: "prepare_tables lib tabs1 = Inr tabs2"
    and c': "tables c' = tabs2"
    by (auto simp: prepare_def query_config_prepare_def split: sum.splits)
  have none: "\<forall>tab\<in>set tabs1. \<forall>f\<in>set (table_fields tab). byte_position f = None"
    using resolve_tables_none [OF t1 assms(2)] .
  from prepare_tables_fields [OF t2] assms(3) c' obtain tab where
    tab: "tab \<in> set tabs1"
    and pf: "prepare_fields 0 (table_fields tab) = Inr (table_fields tab')"
    by auto
  let ?fs = "table_fields tab" and ?fs' = "table_fields tab'"
  have shape: "length ?fs' = length ?fs" "map type_obj ?fs' = map type_obj ?fs"
    using prepare_fields_shape [OF pf] by simp_all
  have size: "map field_fixed_size ?fs' = map field_fixed_size ?fs"
  proof -
    have "map field_fixed_size ?fs' =
          map (\<lambda>t. case t of None \<Rightarrow> 0 | Some T \<Rightarrow> get_fixed_size T) (map type_obj ?fs')"
      by (simp add: field_fixed_size_def comp_def)
    also have "\<dots> = map field_fixed_size ?fs"
      by (simp add: shape(2) field_fixed_size_def comp_def)
    finally show ?thesis .
  qed
  have nth: "\<And>j. j < length ?fs \<Longrightarrow> field_fixed_size (?fs' ! j) = field_fixed_size (?fs ! j)"
  proof -
    fix j assume j: "j < length ?fs"
    then have "field_fixed_size (?fs' ! j) = map field_fixed_size ?fs' ! j"
      using shape(1) by simp
    also have "\<dots> = field_fixed_size (?fs ! j)" using j by (simp add: size)
    finally show "field_fixed_size (?fs' ! j) = field_fixed_size (?fs ! j)" .
  qed
  have i: "i < length ?fs" using assms(4) shape(1) by simp
  have all: "(\<forall>j<i. field_fixed_size (?fs' ! j) \<noteq> 0) = (\<forall>j<i. field_fixed_size (?fs ! j) \<noteq> 0)"
    using nth i by auto
  have sum: "map field_fixed_size (take i ?fs') = map field_fixed_size (take i ?fs)"
    using size by (simp add: take_map [symmetric])
  have "byte_position (?fs' ! i) =
           (if \<forall>j<i. field_fixed_size (?fs ! j) \<noteq> 0
            then Some (0 + sum_list (map field_fixed_size (take i ?fs))) else None)"
    using pf none tab i by (intro prepare_fields_positions) auto
  then show ?thesis unfolding all sum by simp
qed

lemma prepare_example:
  "prepare example_lib abi_type_to_kv_type example_config = Inr example_prepared"
  by (simp add: prepare_def query_config_prepare_def example_config_def example_prepared_def
      abi_type_to_kv_type_def table_names_def example_lib_def get_fixed_size_def
      is_integral_def Let_def)

theorem prepare_byte_positions_witness:
  "prepare example_lib abi_type_to_kv_type example_config = Inr example_prepared \<and>
   map byte_position (table_fields (hd (tables example_config))) = [None, None, None, None] \<and>
   map field_fixed_size (table_fields (hd (tables example_prepared))) = [8, 4, 0, 1] \<and>
   byte_position (table_fields (hd (tables example_prepared)) ! 2) = Some 12 \<and>
   byte_position (table_fields (hd (tables example_prepared)) ! 3) = None"
proof -
  have h2: "\<forall>tab\<in>set (tables example_config). \<forall>f\<in>set (table_fields tab). byte_position f = None"
    by (simp add: example_config_def)
  have h3: "hd (tables example_prepared) \<in> set (tables example_prepared)"
    by (simp add: example_prepared_def)
  have sizes: "map field_fixed_size (table_fields (hd (tables example_prepared))) = [8, 4, 0, 1]"
    by (simp add: example_prepared_def field_fixed_size_def get_fixed_size_def is_integral_def)
  have l2: "2 < length (table_fields (hd (tables example_prepared)))"
    and l3: "3 < length (table_fields (hd (tables example_prepared)))"
    by (simp_all add: example_prepared_def)
  have p2: "byte_position (table_fields (hd (tables example_prepared)) ! 2) = Some 12"
    using prepare_byte_positions [OF prepare_example h2 h3 l2]
    by (simp add: example_prepared_def field_fixed_size_def get_fixed_size_def is_integral_def
        less_Suc_eq numeral_2_eq_2)
  have p3: "byte_position (table_fields (hd (tables example_prepared)) ! 3) = None"
    using prepare_byte_positions [OF prepare_example h2 h3 l3]
    by (simp add: example_prepared_def)
  show ?thesis
    using p2 p3 sizes prepare_example by (simp add: example_config_def)
qed

section \<open>The join\<close>

lemma append_fields_raw:
  "\<forall>key\<in>set keys. field_in_row src key \<Longrightarrow>
   append_fields lib dest src keys False = Inr (dest @ concat (map (field_bytes src) keys))"
proof (induction keys arbitrary: dest)
  case Nil
  show ?case by simp
next
  case (Cons key keys)
  from Cons.prems obtain p T n where
    p: "byte_position (key_field key) = Some p"
    and T: "type_obj (key_field key) = Some T"
    and n: "raw_size T = Some n"
    and le: "unat p + n \<le> length src"
    by (auto simp: field_in_row_def split: option.splits)
  have "bin_to_bin lib T dest (drop (unat p) src) =
          Inr (dest @ take n (drop (unat p) src), drop n (drop (unat p) src))"
    using le by (simp add: bin_to_bin_cases [OF n])
  moreover have "field_bytes src key = take n (drop (unat p) src)"
    using p T n by (simp add: field_bytes_def)
  moreover have "\<not> length src < unat p" using le by simp
  ultimately show ?case
    using p T Cons.IH [of "dest @ take n (drop (unat p) src)"] Cons.prems
    by (simp add: Let_def)
qed

text \<open>
  The range scan from \<open>join_key\<close> followed by some bytes, up to the prefix bracket
  \<open>join_key\<close>, yields only keys that start with \<open>join_key\<close>.
\<close>

lemma between_has_prefix:
  "bytewise_cmp (j @ x) k \<noteq> GT \<Longrightarrow> bytewise_cmp (take (length j) k) j \<noteq> GT \<Longrightarrow>
   take (length j) k = j"
proof (induction j arbitrary: k)
  case Nil
  show ?case by simp
next
  case (Cons c j)
  show ?case
  proof (cases k)
    case Nil
    with Cons.prems(1) show ?thesis by simp
  next
    case (Cons d k')
    with Cons.prems have "\<not> d < c" "\<not> c < d"
      by (auto split: if_splits)
    then have dc: "d = c" by simp
    with Cons Cons.prems have "bytewise_cmp (j @ x) k' \<noteq> GT"
      "bytewise_cmp (take (length j) k') j \<noteq> GT" by simp_all
    then have "take (length j) k' = j" by (rule Cons.IH)
    with Cons dc show ?thesis by simp
  qed
qed

lemma state_suffix_block_eq:
  "append_table_index_state_suffix_block dest block = dest @ native_to_bin_key [] (NOT block)"
  by (simp add: append_table_index_state_suffix_block_def native_to_bin_key_eq)

text \<open>
  A state entry of the join key lies in the scan from the limit key exactly when
  its block is at or before \<open>max_block_num\<close>.
\<close>

lemma state_entry_in_range:
  "(bytewise_cmp (append_table_index_state_suffix_block j mb)
                 (append_table_index_state_suffix j b p) \<noteq> GT \<and>
    bytewise_cmp (take (length j) (append_table_index_state_suffix j b p)) j \<noteq> GT)
   = (b \<le> mb)"
proof -
  let ?x = "[of_bool (\<not> p)] :: bytes"
  have k: "bytewise_cmp (native_to_bin_key [] (NOT mb)) (native_to_bin_key [] (NOT b))
             = cmp (NOT mb) (NOT b)"
    by (rule key_order) simp
  have "bytewise_cmp (native_to_bin_key [] (NOT mb) @ []) (native_to_bin_key [] (NOT b) @ ?x) =
          (case cmp (NOT mb) (NOT b) of EQ \<Rightarrow> bytewise_cmp [] ?x | LT \<Rightarrow> LT | GT \<Rightarrow> GT)"
    unfolding k [symmetric] by (rule bytewise_cmp_append) (simp add: length_key)
  then have "(bytewise_cmp (native_to_bin_key [] (NOT mb)) (native_to_bin_key [] (NOT b) @ ?x) \<noteq> GT)
          = (\<not> NOT b < NOT mb)"
    by (auto simp: cmp_def split: if_splits)
  also have "\<dots> = (b \<le> mb)" by (simp add: not_less_not not_less)
  finally show ?thesis
    by (simp add: state_suffix_block_eq state_suffix_eq bytewise_cmp_prefix bytewise_cmp_refl)
qed

lemma range_scan_state:
  assumes wf: "\<forall>e\<in>set index. \<forall>s. fst e = j @ s \<longrightarrow>
                 (\<exists>b p. fst e = append_table_index_state_suffix j b p)"
  shows "(e \<in> set (range_scan index (append_table_index_state_suffix_block j mb) j)) =
         (e \<in> set index \<and> (\<exists>b p. fst e = append_table_index_state_suffix j b p \<and> b \<le> mb))"
proof
  assume a: "e \<in> set (range_scan index (append_table_index_state_suffix_block j mb) j)"
  then have e: "e \<in> set index"
    and c1: "bytewise_cmp (append_table_index_state_suffix_block j mb) (fst e) \<noteq> GT"
    and c2: "bytewise_cmp (take (length j) (fst e)) j \<noteq> GT"
    by (simp_all add: range_scan_def)
  have "take (length j) (fst e) = j"
    using c1 c2 unfolding state_suffix_block_eq by (rule between_has_prefix)
  then have "fst e = j @ drop (length j) (fst e)"
    by (metis append_take_drop_id)
  with wf e obtain b p where bp: "fst e = append_table_index_state_suffix j b p" by blast
  with c1 c2 have "b \<le> mb" using state_entry_in_range [of j mb b p] by simp
  with e bp show "e \<in> set index \<and> (\<exists>b p. fst e = append_table_index_state_suffix j b p \<and> b \<le> mb)"
    by blast
next
  assume "e \<in> set index \<and> (\<exists>b p. fst e = append_table_index_state_suffix j b p \<and> b \<le> mb)"
  then obtain b p where e: "e \<in> set index"
    and bp: "fst e = append_table_index_state_suffix j b p" and le: "b \<le> mb" by blast
  from le have "bytewise_cmp (append_table_index_state_suffix_block j mb)
                 (append_table_index_state_suffix j b p) \<noteq> GT \<and>
    bytewise_cmp (take (length j) (append_table_index_state_suffix j b p)) j \<noteq> GT"
    by (simp only: state_entry_in_range)
  with e bp show "e \<in> set (range_scan index (append_table_index_state_suffix_block j mb) j)"
    by (simp add: range_scan_def)
qed

text \<open>
  Claim C8. Take a query with a join table, an outer row \<open>delta_value\<close> found at
  \<open>delta_key\<close>, the join key built from it, and a store whose scan is the range
  scan over its index entries. When the scan from the limit key yields no entry,
  the callback leaves \<open>rows\<close> as it was before the outer row was appended: the
  row is removed. When it yields an entry, the result is \<open>rows\<close> followed by one
  row, the outer row extended by \<open>append_fields\<close> without key transformation on the
  join row; for \<open>fields_from_join\<close> that lie in the join row these are the bytes of
  the fields as they stand there (canonical form, not reversed into key form).
  For a join on a state table whose entries below the join key carry the state
  suffix, the scan yields no entry exactly when every version of the join entry
  is newer than \<open>max_block_num\<close>, and every entry it yields is a version at or
  before \<open>max_block_num\<close>.
\<close>

theorem join_miss_drops_join_hit_appends:
  assumes "join_table query = Some jt"
    and "db_get db delta_key = Some delta_value"
    and "append_fields lib (make_table_index_key (short_name jt) (join_query_wasm_name query))
           delta_value (join_key_values query) True = Inr join_key"
    and "for_each_entries db = range_scan index"
  shows "(range_scan index
            (if join_query_is_state query
             then append_table_index_state_suffix_block join_key max_block_num else join_key)
            join_key = [] \<longrightarrow>
            delta_callback lib db query max_block_num (k, delta_key) rows = Inr (False, rows)) \<and>
         (\<forall>jk join_delta_key more join_delta_value row'.
            range_scan index
              (if join_query_is_state query
               then append_table_index_state_suffix_block join_key max_block_num else join_key)
              join_key = (jk, join_delta_key) # more \<and>
            db_get db join_delta_key = Some join_delta_value \<and>
            append_fields lib delta_value join_delta_value (fields_from_join query) False
              = Inr row' \<longrightarrow>
            delta_callback lib db query max_block_num (k, delta_key) rows =
              Inr (False, rows @ [row'])) \<and>
         (\<forall>join_delta_value.
            (\<forall>key\<in>set (fields_from_join query). field_in_row join_delta_value key) \<longrightarrow>
            append_fields lib delta_value join_delta_value (fields_from_join query) False =
              Inr (delta_value @
                   concat (map (field_bytes join_delta_value) (fields_from_join query)))) \<and>
         (join_query_is_state query \<and>
          (\<forall>e\<in>set index. \<forall>s. fst e = join_key @ s \<longrightarrow>
             (\<exists>b p. fst e = append_table_index_state_suffix join_key b p)) \<longrightarrow>
          ((range_scan index
              (if join_query_is_state query
               then append_table_index_state_suffix_block join_key max_block_num else join_key)
              join_key = []) =
           (\<forall>e\<in>set index. \<forall>b p.
              fst e = append_table_index_state_suffix join_key b p \<longrightarrow> max_block_num < b)) \<and>
          (\<forall>e\<in>set (range_scan index
                      (if join_query_is_state query
                       then append_table_index_state_suffix_block join_key max_block_num
                       else join_key)
                      join_key).
             \<exists>b p. fst e = append_table_index_state_suffix join_key b p \<and> b \<le> max_block_num))"
proof (intro conjI impI allI)
  assume "range_scan index
            (if join_query_is_state query
             then append_table_index_state_suffix_block join_key max_block_num else join_key)
            join_key = []"
  then show "delta_callback lib db query max_block_num (k, delta_key) rows = Inr (False, rows)"
    using assms by (simp add: delta_callback_def for_each_def Let_def)
next
  fix jk join_delta_key more join_delta_value row'
  assume "range_scan index
              (if join_query_is_state query
               then append_table_index_state_suffix_block join_key max_block_num else join_key)
              join_key = (jk, join_delta_key) # more \<and>
          db_get db join_delta_key = Some join_delta_value \<and>
          append_fields lib delta_value join_delta_value (fields_from_join query) False = Inr row'"
  then show "delta_callback lib db query max_block_num (k, delta_key) rows =
              Inr (False, rows @ [row'])"
    using assms by (simp add: delta_callback_def for_each_def join_callback_def Let_def)
next
  fix join_delta_value
  assume "\<forall>key\<in>set (fields_from_join query). field_in_row join_delta_value key"
  then show "append_fields lib delta_value join_delta_value (fields_from_join query) False =
          Inr (delta_value @ concat (map (field_bytes join_delta_value) (fields_from_join query)))"
    by (rule append_fields_raw)
next
  assume a: "join_query_is_state query \<and>
          (\<forall>e\<in>set index. \<forall>s. fst e = join_key @ s \<longrightarrow>
             (\<exists>b p. fst e = append_table_index_state_suffix join_key b p))"
  then have st: "join_query_is_state query"
    and wf: "\<forall>e\<in>set index. \<forall>s. fst e = join_key @ s \<longrightarrow>
             (\<exists>b p. fst e = append_table_index_state_suffix join_key b p)" by simp_all
  let ?scan = "range_scan index (append_table_index_state_suffix_block join_key max_block_num)
                 join_key"
  have mem: "\<And>e. (e \<in> set ?scan) =
         (e \<in> set index \<and>
          (\<exists>b p. fst e = append_table_index_state_suffix join_key b p \<and> b \<le> max_block_num))"
    using wf by (rule range_scan_state)
  have "(?scan = []) = (\<forall>e. e \<notin> set ?scan)" by (auto simp: neq_Nil_conv)
  also have "\<dots> = (\<forall>e\<in>set index. \<forall>b p.
              fst e = append_table_index_state_suffix join_key b p \<longrightarrow> max_block_num < b)"
    unfolding mem not_le [symmetric] by blast
  finally show "(range_scan index
              (if join_query_is_state query
               then append_table_index_state_suffix_block join_key max_block_num else join_key)
              join_key = []) =
           (\<forall>e\<in>set index. \<forall>b p.
              fst e = append_table_index_state_suffix join_key b p \<longrightarrow> max_block_num < b)"
    using st by simp
  show "\<forall>e\<in>set (range_scan index
                      (if join_query_is_state query
                       then append_table_index_state_suffix_block join_key max_block_num
                       else join_key)
                      join_key).
             \<exists>b p. fst e = append_table_index_state_suffix join_key b p \<and> b \<le> max_block_num"
    using st mem by simp
qed

lemma make_table_index_key_join_example:
  "make_table_index_key 1 3 = [0x70, 0, 0, 0, 0, 0, 0, 0, 1, 0, 0, 0, 0, 0, 0, 0, 3]"
  by (simp add: make_table_index_key_def append_table_index_key_def native_to_bin_key_eq
      le_bytes_numeral)

lemma example_db_rows:
  "db_get example_db [0x20, 1] = Some [7, 0, 1, 2, 3, 4]"
  "db_get example_join_db [0x20, 1] = Some [7, 0, 1, 2, 3, 4]"
  "db_get example_join_db [0x20, 9] = Some [9, 9, 0, 1, 2, 3]"
  "db_get example_state_join_db [0x20, 1] = Some [7, 0, 1, 2, 3, 4]"
  "db_get example_state_join_db [0x20, 9] = Some [9, 9, 0, 1, 2, 3]"
  by (simp_all add: example_db_def example_join_db_def example_state_join_db_def store_of_def
      example_rows_def)

lemma example_db_scans:
  "for_each_entries example_db = range_scan example_index"
  "for_each_entries example_join_db = range_scan example_join_index"
  "for_each_entries example_state_join_db = range_scan example_state_join_index"
  by (simp_all add: example_db_def example_join_db_def example_state_join_db_def store_of_def)

lemma example_state_keys:
  "append_table_index_state_suffix_block
     [0x70, 0, 0, 0, 0, 0, 0, 0, 1, 0, 0, 0, 0, 0, 0, 0, 3, 0, 7] 10 =
     [0x70, 0, 0, 0, 0, 0, 0, 0, 1, 0, 0, 0, 0, 0, 0, 0, 3, 0, 7, 0xFF, 0xFF, 0xFF, 0xF5]"
  "append_table_index_state_suffix_block
     [0x70, 0, 0, 0, 0, 0, 0, 0, 1, 0, 0, 0, 0, 0, 0, 0, 3, 0, 7] 12 =
     [0x70, 0, 0, 0, 0, 0, 0, 0, 1, 0, 0, 0, 0, 0, 0, 0, 3, 0, 7, 0xFF, 0xFF, 0xFF, 0xF3]"
  "append_table_index_state_suffix
     [0x70, 0, 0, 0, 0, 0, 0, 0, 1, 0, 0, 0, 0, 0, 0, 0, 3, 0, 7] 12 True =
     [0x70, 0, 0, 0, 0, 0, 0, 0, 1, 0, 0, 0, 0, 0, 0, 0, 3, 0, 7, 0xFF, 0xFF, 0xFF, 0xF3, 0]"
  by (simp_all add: state_suffix_block_eq state_suffix_eq native_to_bin_key_eq le_bytes_numeral
      unat_not)

lemma example_join_scans:
  "range_scan example_index
     [0x70, 0, 0, 0, 0, 0, 0, 0, 1, 0, 0, 0, 0, 0, 0, 0, 3, 0, 7]
     [0x70, 0, 0, 0, 0, 0, 0, 0, 1, 0, 0, 0, 0, 0, 0, 0, 3, 0, 7] = []"
  "range_scan example_join_index
     [0x70, 0, 0, 0, 0, 0, 0, 0, 1, 0, 0, 0, 0, 0, 0, 0, 3, 0, 7]
     [0x70, 0, 0, 0, 0, 0, 0, 0, 1, 0, 0, 0, 0, 0, 0, 0, 3, 0, 7] =
     [([0x70, 0, 0, 0, 0, 0, 0, 0, 1, 0, 0, 0, 0, 0, 0, 0, 3, 0, 7], [0x20, 9])]"
  "range_scan example_state_join_index
     [0x70, 0, 0, 0, 0, 0, 0, 0, 1, 0, 0, 0, 0, 0, 0, 0, 3, 0, 7, 0xFF, 0xFF, 0xFF, 0xF5]
     [0x70, 0, 0, 0, 0, 0, 0, 0, 1, 0, 0, 0, 0, 0, 0, 0, 3, 0, 7] = []"
  "range_scan example_state_join_index
     [0x70, 0, 0, 0, 0, 0, 0, 0, 1, 0, 0, 0, 0, 0, 0, 0, 3, 0, 7, 0xFF, 0xFF, 0xFF, 0xF3]
     [0x70, 0, 0, 0, 0, 0, 0, 0, 1, 0, 0, 0, 0, 0, 0, 0, 3, 0, 7] =
     [([0x70, 0, 0, 0, 0, 0, 0, 0, 1, 0, 0, 0, 0, 0, 0, 0, 3, 0, 7, 0xFF, 0xFF, 0xFF, 0xF3, 0],
       [0x20, 9])]"
  by (simp_all add: range_scan_def example_index_def example_join_index_def
      example_state_join_index_def make_table_index_key_example
      make_table_index_key_join_example example_state_keys)

lemma join_key_example:
  "append_fields example_lib (make_table_index_key 1 3) [7, 0, 1, 2, 3, 4] [example_key16] True
     = Inr [0x70, 0, 0, 0, 0, 0, 0, 0, 1, 0, 0, 0, 0, 0, 0, 0, 3, 0, 7]"
  using bin_to_bin_key_supported [of T_uint16 "[7, 0]" example_lib "make_table_index_key 1 3"
      "[1, 2, 3, 4]"]
  by (simp add: example_key16_def key_supported_simps make_table_index_key_join_example)

theorem join_miss_drops_join_hit_appends_witness:
  "join_table example_state_join_query = Some example_table \<and>
   join_query_is_state example_state_join_query \<and>
   db_get example_state_join_db [0x20, 1] = Some [7, 0, 1, 2, 3, 4] \<and>
   db_get example_state_join_db [0x20, 9] = Some [9, 9, 0, 1, 2, 3] \<and>
   field_in_row [9, 9, 0, 1, 2, 3] example_key32 \<and>
   delta_callback example_lib example_state_join_db example_state_join_query 10
       (make_table_index_key 1 2 @ [1, 1], [0x20, 1]) [[5]]
     = Inr (False, [[5]]) \<and>
   delta_callback example_lib example_state_join_db example_state_join_query 12
       (make_table_index_key 1 2 @ [1, 1], [0x20, 1]) [[5]]
     = Inr (False, [[5], [7, 0, 1, 2, 3, 4, 0, 1, 2, 3]]) \<and>
   delta_callback example_lib example_db example_join_query 0
       (make_table_index_key 1 2 @ [1, 1], [0x20, 1]) [[5]]
     = Inr (False, [[5]]) \<and>
   delta_callback example_lib example_join_db example_join_query 0
       (make_table_index_key 1 2 @ [1, 1], [0x20, 1]) [[5]]
     = Inr (False, [[5], [7, 0, 1, 2, 3, 4, 0, 1, 2, 3]])"
proof -
  let ?jk = "[0x70, 0, 0, 0, 0, 0, 0, 0, 1, 0, 0, 0, 0, 0, 0, 0, 3, 0, 7] :: bytes"
  let ?k = "make_table_index_key 1 2 @ [1, 1]"
  have q: "join_table example_state_join_query = Some example_table"
    "join_table example_join_query = Some example_table"
    "join_query_is_state example_state_join_query"
    "\<not> join_query_is_state example_join_query"
    "fields_from_join example_state_join_query = [example_key32]"
    "fields_from_join example_join_query = [example_key32]"
    by (simp_all add: example_state_join_query_def example_join_query_def example_query_def)
  note get = example_db_rows
  have jk: "append_fields example_lib
              (make_table_index_key (short_name example_table)
                 (join_query_wasm_name example_state_join_query))
              [7, 0, 1, 2, 3, 4] (join_key_values example_state_join_query) True = Inr ?jk"
    "append_fields example_lib
              (make_table_index_key (short_name example_table)
                 (join_query_wasm_name example_join_query))
              [7, 0, 1, 2, 3, 4] (join_key_values example_join_query) True = Inr ?jk"
    using join_key_example
    by (simp_all add: example_state_join_query_def example_join_query_def example_query_def
        example_table_def)
  have inrow: "field_in_row [9, 9, 0, 1, 2, 3] example_key32"
    by (simp add: field_in_row_def example_key32_def)
  have row: "append_fields example_lib [7, 0, 1, 2, 3, 4] [9, 9, 0, 1, 2, 3] [example_key32] False
               = Inr [7, 0, 1, 2, 3, 4, 0, 1, 2, 3]"
    by (simp add: example_key32_def bin_to_bin_def copy_raw_def)
  have s10: "delta_callback example_lib example_state_join_db example_state_join_query 10
               (?k, [0x20, 1]) [[5]] = Inr (False, [[5]])"
    using join_miss_drops_join_hit_appends
        [OF q(1) get(4) jk(1) example_db_scans(3), of 10 ?k "[[5]]"]
      q(3) example_state_keys(1) example_join_scans(3)
    by simp
  have s12: "delta_callback example_lib example_state_join_db example_state_join_query 12
               (?k, [0x20, 1]) [[5]] = Inr (False, [[5], [7, 0, 1, 2, 3, 4, 0, 1, 2, 3]])"
    using join_miss_drops_join_hit_appends
        [OF q(1) get(4) jk(1) example_db_scans(3), of 12 ?k "[[5]]"]
      q(3) q(5) example_state_keys(2) example_join_scans(4) get(5) row
    by simp
  have n0: "delta_callback example_lib example_db example_join_query 0
               (?k, [0x20, 1]) [[5]] = Inr (False, [[5]])"
    using join_miss_drops_join_hit_appends
        [OF q(2) get(1) jk(2) example_db_scans(1), of 0 ?k "[[5]]"]
      q(4) example_join_scans(1)
    by simp
  have n1: "delta_callback example_lib example_join_db example_join_query 0
               (?k, [0x20, 1]) [[5]] = Inr (False, [[5], [7, 0, 1, 2, 3, 4, 0, 1, 2, 3]])"
    using join_miss_drops_join_hit_appends
        [OF q(2) get(2) jk(2) example_db_scans(2), of 0 ?k "[[5]]"]
      q(4) q(6) example_join_scans(2) get(3) row
    by simp
  show ?thesis using q(1) q(3) get(4) get(5) inrow s10 s12 n0 n1 by simp
qed

section \<open>The result cap\<close>

lemma group_callback_result:
  "group_callback lib db query mb cap g (rows, n) = Inr (c, s) \<Longrightarrow>
   c = (n + 1 < cap) \<and> snd s = n + 1"
  by (auto simp: group_callback_def Let_def split: sum.splits)

text \<open>
  As long as the cap is not reached, the outer scan over a list of groups is the
  scan over its first \<open>cap - num_results\<close> groups: from a cap of 1 on, exactly
  \<open>cap\<close> of more than \<open>cap\<close> groups are processed, whatever the join keeps of
  their rows, and the remaining groups are not read.
\<close>

lemma outer_scan_stops_at_cap:
  "unat n < unat cap \<Longrightarrow>
   scan gs (group_callback lib db query mb cap) (rows, n) =
   scan (take (unat cap - unat n) gs) (group_callback lib db query mb cap) (rows, n)"
proof (induction gs arbitrary: rows n)
  case Nil
  show ?case by simp
next
  case (Cons g gs)
  let ?f = "group_callback lib db query mb cap"
  from Cons.prems obtain d where d: "unat cap - unat n = Suc d"
    by (cases "unat cap - unat n") simp_all
  then have tk: "take (unat cap - unat n) (g # gs) = g # take d gs" by simp
  have "unat cap < 2 ^ 32" using unsigned_less [of cap] by simp
  with Cons.prems have "unat n + 1 < 2 ^ 32" by simp
  then have suc: "unat (n + 1) = unat n + 1"
    by (simp add: unat_word_ariths)
  show ?case
  proof (cases "?f g (rows, n)")
    case (Inl e)
    then show ?thesis unfolding tk by simp
  next
    case (Inr r)
    obtain c rows' n' where r: "r = (c, rows', n')" by (cases r) auto
    from Inr r group_callback_result [of lib db query mb cap g rows n c "(rows', n')"]
    have c: "c = (n + 1 < cap)" and n': "n' = n + 1" by simp_all
    have val: "?f g (rows, n) = Inr (c, rows', n + 1)" using Inr r n' by simp
    show ?thesis
    proof (cases c)
      case True
      then have lt: "unat (n + 1) < unat cap" using c by (simp add: word_less_nat_alt)
      have ih: "scan gs ?f (rows', n + 1) =
                scan (take (unat cap - unat (n + 1)) gs) ?f (rows', n + 1)"
        using lt by (rule Cons.IH)
      have dd: "unat cap - unat (n + 1) = d" using d suc by arith
      have l: "scan (g # gs) ?f (rows, n) = scan gs ?f (rows', n + 1)"
        using val True by simp
      have r': "scan (g # take d gs) ?f (rows, n) = scan (take d gs) ?f (rows', n + 1)"
        using val True by simp
      show ?thesis unfolding tk l r' using ih unfolding dd .
    next
      case False
      have l: "scan (g # gs) ?f (rows, n) = Inr (rows', n + 1)"
        using val False by simp
      have r': "scan (g # take d gs) ?f (rows, n) = Inr (rows', n + 1)"
        using val False by simp
      show ?thesis unfolding tk l r' ..
    qed
  qed
qed

lemma example_query_name: "(bin_to_native [2, 0, 0, 0, 0, 0, 0, 0, 0, 0, 9, 9, 0, 0, 0, 0]
    :: error + (name \<times> bytes)) = Inr (2, [0, 0, 9, 9, 0, 0, 0, 0])"
  by (simp add: bin_to_native_def)

lemma example_cap_zero: "(bin_to_native [0, 0, 0, 0] :: error + (32 word \<times> bytes)) = Inr (0, [])"
  by (simp add: bin_to_native_def)

lemma example_bounds:
  "query_bounds example_lib example_query 2 [0, 0, 9, 9, 0, 0, 0, 0] =
     Inr (make_table_index_key 1 2 @ [0, 0], make_table_index_key 1 2 @ [9, 9], [0, 0, 0, 0])"
  by (simp add: query_bounds_def example_query_def example_table_def query_to_bin_key_uint8 Let_def)

lemma example_query_fields:
  "arg_types example_query = []" "limit_block_num example_query = False"
  "max_results example_query = 10" "is_state example_query = False"
  "join_table example_query = None"
  by (simp_all add: example_query_def)

lemma example_db_groups:
  "for_each_subkey_entries example_db
     (make_table_index_key 1 2 @ [0, 0]) (make_table_index_key 1 2 @ [9, 9]) =
     [make_table_index_key 1 2 @ [1, 1], make_table_index_key 1 2 @ [2, 2]]"
  by (simp add: example_db_def store_of_def example_index_def bytewise_cmp_prefix)

lemma example_db_group_scan:
  "for_each_entries example_db
     (make_table_index_key 1 2 @ [1, 1]) (make_table_index_key 1 2 @ [1, 1]) =
     [(make_table_index_key 1 2 @ [1, 1], [0x20, 1])]"
proof -
  have "range_scan example_index
          [0x70, 0, 0, 0, 0, 0, 0, 0, 1, 0, 0, 0, 0, 0, 0, 0, 2, 1, 1]
          [0x70, 0, 0, 0, 0, 0, 0, 0, 1, 0, 0, 0, 0, 0, 0, 0, 2, 1, 1] =
        [([0x70, 0, 0, 0, 0, 0, 0, 0, 1, 0, 0, 0, 0, 0, 0, 0, 2, 1, 1], [0x20, 1])]"
    by (simp add: range_scan_def example_index_def make_table_index_key_example)
  then show ?thesis
    by (simp add: example_db_scans make_table_index_key_example)
qed

text \<open>
  Claim C7 at the failing input. The query asks for a cap of 0 and the store holds
  two groups between the bounds: the effective cap is \<open>min 0 10 = 0\<close>, yet the callback runs
  for the first group before \<open>++num_results < max_results\<close> is evaluated, so one
  group is processed and its row returned, where the claim says exactly \<open>cap\<close>,
  that is no, group.
\<close>

theorem result_cap_zero_emits_one_group:
  "query_database_rows example_lib example_db (example_query_map example_query)
     [2, 0, 0, 0, 0, 0, 0, 0, 0, 0, 9, 9, 0, 0, 0, 0] 0 =
   Inr ([[7, 0, 1, 2, 3, 4]], 1)"
  by (simp add: query_database_rows_def example_query_name example_query_map_def example_bounds
      example_cap_zero for_each_subkey_def group_callback_def for_each_def delta_callback_def
      example_query_fields example_db_groups example_db_group_scan example_db_rows Let_def)

end
